theory Spec2Isabelle
  imports Main "HOL-Library.Monad_Syntax"
begin

section \<open>The object store of \<^verbatim>\<open>state.ts\<close>\<close>

text \<open>
  The model graph of \<^verbatim>\<open>src/src/state.ts\<close> is a cyclic object graph (parents point to
  children and children to parents), so objects live in an explicit store and are named
  by references. There is one arena per class; a reference is the index at which the
  object was allocated, and \<^verbatim>\<open>new\<close> appends to the arena. TypeScript's types keep an
  object reference from dangling and from pointing at an object of another class; in the
  store a reference beyond the arena, or to a vertex of the wrong class, makes the
  operation return \<open>None\<close> (it is stuck), so every operation that follows a reference is
  a function into \<open>option\<close>.

  Callbacks supplied by user code (behaviors, actions, guards) are function objects whose
  bodies are outside the source; they are references of type \<open>fref\<close>.
\<close>

type_synonym mref = nat

type_synonym rref = nat

type_synonym vref = nat

type_synonym tref = nat

type_synonym iref = nat

type_synonym fref = nat

datatype PseudoStateKind = Choice | DeepHistory | Initial | Junction | ShallowHistory

datatype TransitionKind = External | Internal | Local

text \<open>A message has type \<^verbatim>\<open>any\<close>: a primitive value or a reference to any object.\<close>

datatype message =
    Undefined
  | Primitive string
  | MachineRef mref
  | RegionRef rref
  | VertexRef vref
  | TransitionRef tref
  | InstanceRef iref
  | FunctionRef fref

text \<open>
  The closures that \<^verbatim>\<open>state.ts\<close> itself creates for the field \<^verbatim>\<open>guard\<close>, and the
  guards handed in by the caller of \<^verbatim>\<open>when\<close>:
  \<^item> \<open>GuardTrue\<close> is \<^verbatim>\<open>() => true\<close>;
  \<^item> \<open>GuardIsSource t\<close> is \<^verbatim>\<open>message => message === this.source\<close>, the arrow function
    closing over \<^verbatim>\<open>this\<close>, the transition \<open>t\<close> under construction;
  \<^item> \<open>GuardFalse\<close> is \<^verbatim>\<open>() => false\<close>;
  \<^item> \<open>GuardUser f\<close> is a caller's function object.
\<close>

datatype Guard = GuardTrue | GuardIsSource tref | GuardFalse | GuardUser fref

text \<open>\<^verbatim>\<open>State | StateMachine\<close>, the type of a region's parent.\<close>

datatype Owner = StateOwner vref | MachineOwner mref

text \<open>\<^verbatim>\<open>Region | State | StateMachine\<close>, the type of the parent argument of a vertex.\<close>

datatype VertexParent = InRegion rref | InOwner Owner

text \<open>The receivers of the methods of the interface \<^verbatim>\<open>Element\<close>.\<close>

datatype Element = MachineE mref | RegionE rref | VertexE vref

record StateMachine =
  sm_name :: string
  sm_regions :: "rref list"
  sm_defaultRegion :: "rref option"
  clean :: bool
  onInitialise :: "fref list"

record Region =
  r_name :: string
  r_parent :: Owner
  r_qualifiedName :: string
  vertices :: "vref list"

text \<open>The fields that class \<^verbatim>\<open>State\<close> adds to \<^verbatim>\<open>Vertex\<close>.\<close>

record State =
  regions :: "rref list"
  defaultRegion :: "rref option"
  entryBehavior :: "fref list"
  exitBehavior :: "fref list"

text \<open>
  \<^verbatim>\<open>Vertex\<close> is a concrete, exported class with the subclasses \<^verbatim>\<open>PseudoState\<close> and
  \<^verbatim>\<open>State\<close>; the class of an object decides \<^verbatim>\<open>instanceof\<close>.
\<close>

datatype VertexClass = PlainVertex | PseudoStateC PseudoStateKind | StateC State

record Vertex =
  v_name :: string
  v_parent :: rref
  v_qualifiedName :: string
  outgoing :: "tref list"
  incoming :: "tref list"
  v_class :: VertexClass

record Transition =
  source :: vref
  target :: "vref option"
  kind :: TransitionKind
  guard :: Guard
  effectBehavior :: "fref list"

record DictionaryInstance =
  di_name :: string
  activeStateConfiguration :: "string \<rightharpoonup> vref"

text \<open>The store; \<open>console\<close> is what \<^verbatim>\<open>console.log\<close> has printed, oldest line first.\<close>

record heap =
  machineStore :: "StateMachine list"
  regionStore :: "Region list"
  vertexStore :: "Vertex list"
  transitionStore :: "Transition list"
  instanceStore :: "DictionaryInstance list"
  console :: "string list"

definition emptyHeap :: heap where
  "emptyHeap = \<lparr>machineStore = [], regionStore = [], vertexStore = [],
     transitionStore = [], instanceStore = [], console = []\<rparr>"

definition lookup :: "'a list \<Rightarrow> nat \<Rightarrow> 'a option" where
  "lookup xs i = (if i < length xs then Some (xs ! i) else None)"

definition log :: "heap \<Rightarrow> string \<Rightarrow> heap" where
  "log h line = h\<lparr>console := console h @ [line]\<rparr>"

definition getState :: "heap \<Rightarrow> vref \<Rightarrow> State option" where
  "getState h s = (case lookup (vertexStore h) s of
       None \<Rightarrow> None
     | Some vx \<Rightarrow> (case v_class vx of StateC st \<Rightarrow> Some st | _ \<Rightarrow> None))"

text \<open>
  Field updates through a reference that the caller has just looked up (\<open>putState\<close>,
  \<open>setClean\<close>, \<open>setKind\<close>): the object is in the arena.
\<close>

definition putState :: "heap \<Rightarrow> vref \<Rightarrow> State \<Rightarrow> heap" where
  "putState h s st =
     h\<lparr>vertexStore := (vertexStore h)[s := (vertexStore h ! s)\<lparr>v_class := StateC st\<rparr>]\<rparr>"

definition setClean :: "heap \<Rightarrow> mref \<Rightarrow> bool \<Rightarrow> heap" where
  "setClean h m b = h\<lparr>machineStore := (machineStore h)[m := (machineStore h ! m)\<lparr>clean := b\<rparr>]\<rparr>"

section \<open>Elements\<close>

text \<open>
  \<^verbatim>\<open>getRoot\<close>: a \<^verbatim>\<open>NamedElement\<close> asks its parent, a \<^verbatim>\<open>StateMachine\<close> answers with
  itself. The recursion follows the parent references of the store, which the type of the
  store does not force to be acyclic, so the function is partial: \<open>None\<close> is "does not
  return" (or met a dangling reference).
\<close>

definition ownerElement :: "Owner \<Rightarrow> Element" where
  "ownerElement ow = (case ow of StateOwner s \<Rightarrow> VertexE s | MachineOwner m \<Rightarrow> MachineE m)"

partial_function (option) getRoot :: "heap \<Rightarrow> Element \<Rightarrow> mref option" where
  "getRoot h e = (case e of
       MachineE m \<Rightarrow> (if m < length (machineStore h) then Some m else None)
     | RegionE r \<Rightarrow> (case lookup (regionStore h) r of
           None \<Rightarrow> None
         | Some rg \<Rightarrow> getRoot h (ownerElement (r_parent rg)))
     | VertexE v \<Rightarrow> (case lookup (vertexStore h) v of
           None \<Rightarrow> None
         | Some vx \<Rightarrow> getRoot h (RegionE (v_parent vx))))"

declare getRoot.simps [code]

text \<open>\<^verbatim>\<open>toString\<close>: the name of a machine, the qualified name of a named element.\<close>

definition toString :: "heap \<Rightarrow> Element \<Rightarrow> string option" where
  "toString h e = (case e of
       MachineE m \<Rightarrow> map_option sm_name (lookup (machineStore h) m)
     | RegionE r \<Rightarrow> map_option r_qualifiedName (lookup (regionStore h) r)
     | VertexE v \<Rightarrow> map_option v_qualifiedName (lookup (vertexStore h) v))"

definition namespaceSeparator :: string where
  "namespaceSeparator = ''.''"

text \<open>
  The constructor of \<^verbatim>\<open>NamedElement\<close>: the qualified name (the parent is an object, so
  the conditional takes its first branch) and the line it prints.
\<close>

definition NamedElement_new :: "heap \<Rightarrow> string \<Rightarrow> Element \<Rightarrow> (string \<times> heap) option" where
  "NamedElement_new h name parent = do {
     p \<leftarrow> toString h parent;
     let qn = p @ namespaceSeparator @ name;
     Some (qn, log h (''created '' @ qn))
   }"

definition StateMachine_new :: "heap \<Rightarrow> string \<Rightarrow> mref \<times> heap" where
  "StateMachine_new h name =
     (length (machineStore h),
      h\<lparr>machineStore := machineStore h @
          [\<lparr>sm_name = name, sm_regions = [], sm_defaultRegion = None,
            clean = False, onInitialise = []\<rparr>]\<rparr>)"

text \<open>\<^verbatim>\<open>this.parent.regions.push(this)\<close> in the constructor of \<^verbatim>\<open>Region\<close>.\<close>

definition pushRegion :: "heap \<Rightarrow> Owner \<Rightarrow> rref \<Rightarrow> heap option" where
  "pushRegion h ow r = (case ow of
       StateOwner s \<Rightarrow> do {
         st \<leftarrow> getState h s;
         Some (putState h s (st\<lparr>regions := regions st @ [r]\<rparr>))
       }
     | MachineOwner m \<Rightarrow> do {
         sm \<leftarrow> lookup (machineStore h) m;
         Some (h\<lparr>machineStore := (machineStore h)[m := sm\<lparr>sm_regions := sm_regions sm @ [r]\<rparr>]\<rparr>)
       })"

definition defaultName :: string where
  "defaultName = ''default''"

definition Region_new :: "heap \<Rightarrow> string \<Rightarrow> Owner \<Rightarrow> (rref \<times> heap) option" where
  "Region_new h name parent = do {
     (qn, h1) \<leftarrow> NamedElement_new h name (ownerElement parent);
     let r = length (regionStore h1);
     let h2 = h1\<lparr>regionStore := regionStore h1 @
               [\<lparr>r_name = name, r_parent = parent, r_qualifiedName = qn, vertices = []\<rparr>]\<rparr>;
     h3 \<leftarrow> pushRegion h2 parent r;
     m \<leftarrow> getRoot h3 (RegionE r);
     Some (r, setClean h3 m False)
   }"

text \<open>\<^verbatim>\<open>this.defaultRegion || (this.defaultRegion = new Region(Region.defaultName, this))\<close>\<close>

definition State_getDefaultRegion :: "heap \<Rightarrow> vref \<Rightarrow> (rref \<times> heap) option" where
  "State_getDefaultRegion h s = do {
     st \<leftarrow> getState h s;
     (case defaultRegion st of
        Some r \<Rightarrow> Some (r, h)
      | None \<Rightarrow> do {
          (r, h1) \<leftarrow> Region_new h defaultName (StateOwner s);
          st1 \<leftarrow> getState h1 s;
          Some (r, putState h1 s (st1\<lparr>defaultRegion := Some r\<rparr>))
        })
   }"

definition StateMachine_getDefaultRegion :: "heap \<Rightarrow> mref \<Rightarrow> (rref \<times> heap) option" where
  "StateMachine_getDefaultRegion h m = do {
     sm \<leftarrow> lookup (machineStore h) m;
     (case sm_defaultRegion sm of
        Some r \<Rightarrow> Some (r, h)
      | None \<Rightarrow> do {
          (r, h1) \<leftarrow> Region_new h defaultName (MachineOwner m);
          sm1 \<leftarrow> lookup (machineStore h1) m;
          Some (r, h1\<lparr>machineStore := (machineStore h1)[m := sm1\<lparr>sm_defaultRegion := Some r\<rparr>]\<rparr>)
        })
   }"

definition getDefaultRegion :: "heap \<Rightarrow> Owner \<Rightarrow> (rref \<times> heap) option" where
  "getDefaultRegion h ow = (case ow of
       StateOwner s \<Rightarrow> State_getDefaultRegion h s
     | MachineOwner m \<Rightarrow> StateMachine_getDefaultRegion h m)"

text \<open>
  Reading the fields \<^verbatim>\<open>regions\<close> and \<^verbatim>\<open>defaultRegion\<close> of a \<^verbatim>\<open>State | StateMachine\<close>;
  \<open>isOwner\<close> says that the reference is to an object of that type.
\<close>

definition ownerRegions :: "heap \<Rightarrow> Owner \<Rightarrow> rref list option" where
  "ownerRegions h ow = (case ow of
       StateOwner s \<Rightarrow> map_option regions (getState h s)
     | MachineOwner m \<Rightarrow> map_option sm_regions (lookup (machineStore h) m))"

definition ownerDefaultRegion :: "heap \<Rightarrow> Owner \<Rightarrow> rref option option" where
  "ownerDefaultRegion h ow = (case ow of
       StateOwner s \<Rightarrow> map_option defaultRegion (getState h s)
     | MachineOwner m \<Rightarrow> map_option sm_defaultRegion (lookup (machineStore h) m))"

definition isOwner :: "heap \<Rightarrow> Owner \<Rightarrow> bool" where
  "isOwner h ow = (case ow of
       StateOwner s \<Rightarrow> getState h s \<noteq> None
     | MachineOwner m \<Rightarrow> m < length (machineStore h))"

text \<open>\<^verbatim>\<open>this.parent.vertices.push(this)\<close> in the constructor of \<^verbatim>\<open>Vertex\<close>.\<close>

definition pushVertex :: "heap \<Rightarrow> rref \<Rightarrow> vref \<Rightarrow> heap option" where
  "pushVertex h r v = do {
     rg \<leftarrow> lookup (regionStore h) r;
     Some (h\<lparr>regionStore := (regionStore h)[r := rg\<lparr>vertices := vertices rg @ [v]\<rparr>]\<rparr>)
   }"

text \<open>
  The constructor of \<^verbatim>\<open>Vertex\<close>; \<open>cls\<close> is the class being instantiated with the
  initial values of its own fields. The argument of \<^verbatim>\<open>super\<close>,
  \<^verbatim>\<open>parent instanceof Region ? parent : parent.getDefaultRegion()\<close>, is evaluated first,
  so a default region is created before the vertex registers itself.
\<close>

definition parentRegion :: "heap \<Rightarrow> VertexParent \<Rightarrow> (rref \<times> heap) option" where
  "parentRegion h parent = (case parent of
       InRegion r \<Rightarrow> Some (r, h)
     | InOwner ow \<Rightarrow> getDefaultRegion h ow)"

definition Vertex_new :: "heap \<Rightarrow> string \<Rightarrow> VertexParent \<Rightarrow> VertexClass \<Rightarrow> (vref \<times> heap) option" where
  "Vertex_new h name parent cls = do {
     (rg, h0) \<leftarrow> parentRegion h parent;
     (qn, h1) \<leftarrow> NamedElement_new h0 name (RegionE rg);
     let v = length (vertexStore h1);
     let h2 = h1\<lparr>vertexStore := vertexStore h1 @
               [\<lparr>v_name = name, v_parent = rg, v_qualifiedName = qn,
                 outgoing = [], incoming = [], v_class = cls\<rparr>]\<rparr>;
     h3 \<leftarrow> pushVertex h2 rg v;
     m \<leftarrow> getRoot h3 (VertexE v);
     Some (v, setClean h3 m False)
   }"

text \<open>\<open>k\<close> is the kind the caller asks for, \<open>Initial\<close> where the caller leaves it out.\<close>

definition PseudoState_new ::
  "heap \<Rightarrow> string \<Rightarrow> VertexParent \<Rightarrow> PseudoStateKind \<Rightarrow> (vref \<times> heap) option" where
  "PseudoState_new h name parent k = Vertex_new h name parent (PseudoStateC k)"

definition State_new :: "heap \<Rightarrow> string \<Rightarrow> VertexParent \<Rightarrow> (vref \<times> heap) option" where
  "State_new h name parent =
     Vertex_new h name parent
       (StateC \<lparr>regions = [], defaultRegion = None, entryBehavior = [], exitBehavior = []\<rparr>)"

section \<open>States\<close>

definition State_exit :: "heap \<Rightarrow> vref \<Rightarrow> fref \<Rightarrow> heap option" where
  "State_exit h s action = do {
     st \<leftarrow> getState h s;
     let h1 = putState h s (st\<lparr>exitBehavior := exitBehavior st @ [action]\<rparr>);
     m \<leftarrow> getRoot h1 (VertexE s);
     Some (setClean h1 m False)
   }"

definition State_enter :: "heap \<Rightarrow> vref \<Rightarrow> fref \<Rightarrow> heap option" where
  "State_enter h s action = do {
     st \<leftarrow> getState h s;
     let h1 = putState h s (st\<lparr>exitBehavior := exitBehavior st @ [action]\<rparr>);
     m \<leftarrow> getRoot h1 (VertexE s);
     Some (setClean h1 m False)
   }"

definition State_isFinal :: "heap \<Rightarrow> vref \<Rightarrow> bool option" where
  "State_isFinal h s = do {
     vx \<leftarrow> lookup (vertexStore h) s;
     (case v_class vx of StateC st \<Rightarrow> Some (length (outgoing vx) = 0) | _ \<Rightarrow> None)
   }"

definition State_isSimple :: "heap \<Rightarrow> vref \<Rightarrow> bool option" where
  "State_isSimple h s = do { st \<leftarrow> getState h s; Some (length (regions st) = 0) }"

section \<open>Transitions\<close>

definition pushOutgoing :: "heap \<Rightarrow> vref \<Rightarrow> tref \<Rightarrow> heap option" where
  "pushOutgoing h v t = do {
     vx \<leftarrow> lookup (vertexStore h) v;
     Some (h\<lparr>vertexStore := (vertexStore h)[v := vx\<lparr>outgoing := outgoing vx @ [t]\<rparr>]\<rparr>)
   }"

definition pushIncoming :: "heap \<Rightarrow> vref \<Rightarrow> tref \<Rightarrow> heap option" where
  "pushIncoming h v t = do {
     vx \<leftarrow> lookup (vertexStore h) v;
     Some (h\<lparr>vertexStore := (vertexStore h)[v := vx\<lparr>incoming := incoming vx @ [t]\<rparr>]\<rparr>)
   }"

definition setKind :: "heap \<Rightarrow> tref \<Rightarrow> TransitionKind \<Rightarrow> heap" where
  "setKind h t k =
     h\<lparr>transitionStore := (transitionStore h)[t := (transitionStore h ! t)\<lparr>kind := k\<rparr>]\<rparr>"

text \<open>
  The constructor of \<^verbatim>\<open>Transition\<close>. \<open>knd\<close> is the kind the caller asks for
  (\<open>External\<close> where the caller leaves it out); an absent target is \<open>None\<close>, which
  prints as \<^verbatim>\<open>undefined\<close>.
\<close>

definition Transition_new ::
  "heap \<Rightarrow> vref \<Rightarrow> vref option \<Rightarrow> TransitionKind \<Rightarrow> (tref \<times> heap) option" where
  "Transition_new h src tgt knd = do {
     svx \<leftarrow> lookup (vertexStore h) src;
     let t = length (transitionStore h);
     let grd = (case v_class svx of PseudoStateC _ \<Rightarrow> GuardTrue | _ \<Rightarrow> GuardIsSource t);
     let h1 = h\<lparr>transitionStore := transitionStore h @
               [\<lparr>source = src, target = tgt, kind = knd, guard = grd, effectBehavior = []\<rparr>]\<rparr>;
     h2 \<leftarrow> pushOutgoing h1 src t;
     m \<leftarrow> getRoot h2 (VertexE src);
     let h3 = setClean h2 m False;
     h4 \<leftarrow> (case tgt of Some g \<Rightarrow> pushIncoming h3 g t | None \<Rightarrow> Some (setKind h3 t Internal));
     s1 \<leftarrow> toString h4 (VertexE src);
     s2 \<leftarrow> (case tgt of Some g \<Rightarrow> toString h4 (VertexE g) | None \<Rightarrow> Some ''undefined'');
     Some (t, log h4 (''created transition from '' @ s1 @ '' to '' @ s2))
   }"

definition Vertex_to :: "heap \<Rightarrow> vref \<Rightarrow> vref option \<Rightarrow> TransitionKind \<Rightarrow> (tref \<times> heap) option" where
  "Vertex_to h v tgt knd = Transition_new h v tgt knd"

definition Transition_else :: "heap \<Rightarrow> tref \<Rightarrow> heap option" where
  "Transition_else h t = do {
     tr \<leftarrow> lookup (transitionStore h) t;
     Some (h\<lparr>transitionStore := (transitionStore h)[t := tr\<lparr>guard := GuardFalse\<rparr>]\<rparr>)
   }"

definition Transition_when :: "heap \<Rightarrow> tref \<Rightarrow> Guard \<Rightarrow> heap option" where
  "Transition_when h t g = do {
     tr \<leftarrow> lookup (transitionStore h) t;
     Some (h\<lparr>transitionStore := (transitionStore h)[t := tr\<lparr>guard := g\<rparr>]\<rparr>)
   }"

definition Transition_effect :: "heap \<Rightarrow> tref \<Rightarrow> fref \<Rightarrow> heap option" where
  "Transition_effect h t action = do {
     tr \<leftarrow> lookup (transitionStore h) t;
     let h1 = h\<lparr>transitionStore :=
                (transitionStore h)[t := tr\<lparr>effectBehavior := effectBehavior tr @ [action]\<rparr>]\<rparr>;
     m \<leftarrow> getRoot h1 (VertexE (source tr));
     Some (setClean h1 m False)
   }"

text \<open>
  Calling a guard. \<open>user\<close> gives the result of a caller's function object on the store, the
  message and the instance; the closures of \<^verbatim>\<open>state.ts\<close> run their own bodies, and
  \<open>GuardIsSource t\<close> reads \<^verbatim>\<open>this.source\<close> when it is called.
\<close>

definition Guard_call ::
  "(fref \<Rightarrow> heap \<Rightarrow> message \<Rightarrow> iref \<Rightarrow> bool) \<Rightarrow> heap \<Rightarrow> Guard \<Rightarrow> message \<Rightarrow> iref \<Rightarrow> bool option" where
  "Guard_call user h g msg inst = (case g of
       GuardTrue \<Rightarrow> Some True
     | GuardIsSource t \<Rightarrow> do {
         tr \<leftarrow> lookup (transitionStore h) t;
         Some (msg = VertexRef (source tr))
       }
     | GuardFalse \<Rightarrow> Some False
     | GuardUser f \<Rightarrow> Some (user f h msg inst))"

definition kindName :: "TransitionKind \<Rightarrow> string" where
  "kindName k = (case k of External \<Rightarrow> ''External'' | Internal \<Rightarrow> ''Internal'' | Local \<Rightarrow> ''Local'')"

definition Transition_toString :: "heap \<Rightarrow> tref \<Rightarrow> string option" where
  "Transition_toString h t = do {
     tr \<leftarrow> lookup (transitionStore h) t;
     s \<leftarrow> toString h (VertexE (source tr));
     (if kind tr = Internal then Some (kindName (kind tr) @ ''('' @ s @ '')'')
      else do {
        g \<leftarrow> (case target tr of Some g \<Rightarrow> toString h (VertexE g) | None \<Rightarrow> Some ''undefined'');
        Some (kindName (kind tr) @ ''('' @ s @ '' -> '' @ g @ '')'')
      })
   }"

section \<open>Instances\<close>

text \<open>
  \<^verbatim>\<open>activeStateConfiguration\<close> is an object used as a dictionary from strings. The keys
  it is read and written at are qualified names of regions, which contain the namespace
  separator (\<open>Region_new\<close> builds them so), and no property that an object literal
  inherits has a separator in its name: an absent key reads \<^verbatim>\<open>undefined\<close>, here \<open>None\<close>.
\<close>

definition DictionaryInstance_new :: "heap \<Rightarrow> string \<Rightarrow> iref \<times> heap" where
  "DictionaryInstance_new h name =
     (length (instanceStore h),
      h\<lparr>instanceStore := instanceStore h @
          [\<lparr>di_name = name, activeStateConfiguration = Map.empty\<rparr>]\<rparr>)"

definition setCurrent :: "heap \<Rightarrow> iref \<Rightarrow> rref \<Rightarrow> vref \<Rightarrow> heap option" where
  "setCurrent h i r s = do {
     di \<leftarrow> lookup (instanceStore h) i;
     rg \<leftarrow> lookup (regionStore h) r;
     Some (h\<lparr>instanceStore := (instanceStore h)
            [i := di\<lparr>activeStateConfiguration :=
                      (activeStateConfiguration di)(r_qualifiedName rg \<mapsto> s)\<rparr>]\<rparr>)
   }"

text \<open>The inner \<open>option\<close> of the result is \<^verbatim>\<open>State | undefined\<close>.\<close>

definition getCurrent :: "heap \<Rightarrow> iref \<Rightarrow> rref \<Rightarrow> vref option option" where
  "getCurrent h i r = do {
     di \<leftarrow> lookup (instanceStore h) i;
     rg \<leftarrow> lookup (regionStore h) r;
     Some (activeStateConfiguration di (r_qualifiedName rg))
   }"

section \<open>Completeness\<close>

text \<open>\<^verbatim>\<open>Array.prototype.every\<close> stops at the first element that fails the test.\<close>

fun every :: "('a \<Rightarrow> bool option) \<Rightarrow> 'a list \<Rightarrow> bool option" where
  "every p [] = Some True"
| "every p (x # xs) = (case p x of
       None \<Rightarrow> None
     | Some b \<Rightarrow> (if b then every p xs else Some False))"

definition Region_isComplete :: "heap \<Rightarrow> iref \<Rightarrow> rref \<Rightarrow> bool option" where
  "Region_isComplete h inst r = do {
     currentState \<leftarrow> getCurrent h inst r;
     (case currentState of None \<Rightarrow> Some False | Some s \<Rightarrow> State_isFinal h s)
   }"

definition State_isComplete :: "heap \<Rightarrow> iref \<Rightarrow> vref \<Rightarrow> bool option" where
  "State_isComplete h inst s = do {
     st \<leftarrow> getState h s;
     every (Region_isComplete h inst) (regions st)
   }"

definition StateMachine_isComplete :: "heap \<Rightarrow> iref \<Rightarrow> mref \<Rightarrow> bool option" where
  "StateMachine_isComplete h inst m = do {
     sm \<leftarrow> lookup (machineStore h) m;
     every (Region_isComplete h inst) (sm_regions sm)
   }"

section \<open>The visitor and \<^verbatim>\<open>initialise\<close>\<close>

text \<open>A \<^verbatim>\<open>for ... of\<close> loop whose body threads the store.\<close>

fun forEach :: "(heap \<Rightarrow> 'a \<Rightarrow> heap option) \<Rightarrow> 'a list \<Rightarrow> heap \<Rightarrow> heap option" where
  "forEach f [] h = Some h"
| "forEach f (x # xs) h = (case f h x of None \<Rightarrow> None | Some h1 \<Rightarrow> forEach f xs h1)"

definition visitElement :: "heap \<Rightarrow> Element \<Rightarrow> heap option" where
  "visitElement h e = do { s \<leftarrow> toString h e; Some (log h (''visiting '' @ s)) }"

definition visitTransition :: "heap \<Rightarrow> tref \<Rightarrow> heap option" where
  "visitTransition h t = do { s \<leftarrow> Transition_toString h t; Some (log h (''visiting '' @ s)) }"

definition visitVertex :: "heap \<Rightarrow> vref \<Rightarrow> heap option" where
  "visitVertex h v = do {
     vx \<leftarrow> lookup (vertexStore h) v;
     h1 \<leftarrow> forEach visitTransition (outgoing vx) h;
     visitElement h1 (VertexE v)
   }"

text \<open>
  \<^verbatim>\<open>region.accept\<close> runs \<^verbatim>\<open>visitRegion\<close>; \<^verbatim>\<open>vertex.accept\<close> runs \<^verbatim>\<open>visitState\<close>,
  \<^verbatim>\<open>visitPseudoState\<close> or \<^verbatim>\<open>visitVertex\<close> by the class of the vertex. The two recurse
  through each other along the child lists of the store; the first argument bounds the
  depth of the calls, and \<open>None\<close> is a walk that needs more (or never ends).
\<close>

fun Region_accept :: "nat \<Rightarrow> heap \<Rightarrow> rref \<Rightarrow> heap option"
  and Vertex_accept :: "nat \<Rightarrow> heap \<Rightarrow> vref \<Rightarrow> heap option" where
  "Region_accept 0 h r = None"
| "Region_accept (Suc n) h r = (case lookup (regionStore h) r of
       None \<Rightarrow> None
     | Some rg \<Rightarrow> (case forEach (\<lambda>h' v. Vertex_accept n h' v) (vertices rg) h of
           None \<Rightarrow> None
         | Some h1 \<Rightarrow> visitElement h1 (RegionE r)))"
| "Vertex_accept 0 h v = None"
| "Vertex_accept (Suc n) h v = (case lookup (vertexStore h) v of
       None \<Rightarrow> None
     | Some vx \<Rightarrow> (case v_class vx of
           StateC st \<Rightarrow> (case forEach (\<lambda>h' r. Region_accept n h' r) (regions st) h of
               None \<Rightarrow> None
             | Some h1 \<Rightarrow> visitVertex h1 v)
         | PseudoStateC k \<Rightarrow> visitVertex h v
         | PlainVertex \<Rightarrow> visitVertex h v))"

definition StateMachine_accept :: "nat \<Rightarrow> heap \<Rightarrow> mref \<Rightarrow> heap option" where
  "StateMachine_accept n h m = do {
     sm \<leftarrow> lookup (machineStore h) m;
     h1 \<leftarrow> forEach (Region_accept n) (sm_regions sm) h;
     visitElement h1 (MachineE m)
   }"

text \<open>
  \<^verbatim>\<open>invoke\<close> calls each action with the message, the instance and the history flag;
  \<open>run\<close> gives the effect of an action's body on the store.
\<close>

definition invoke ::
  "(fref \<Rightarrow> message \<Rightarrow> iref \<Rightarrow> bool \<Rightarrow> heap \<Rightarrow> heap option) \<Rightarrow>
   fref list \<Rightarrow> message \<Rightarrow> iref \<Rightarrow> bool \<Rightarrow> heap \<Rightarrow> heap option" where
  "invoke run actions msg inst deepHistory h =
     forEach (\<lambda>h' action. run action msg inst deepHistory h') actions h"

text \<open>
  \<^verbatim>\<open>initialise\<close>: with an instance (\<open>Some i\<close>) it compiles the model first when asked to
  and the model is not clean, then runs the initialise actions; without one it is the
  compile pass, which walks the model with a visitor and sets \<^verbatim>\<open>clean\<close>.
\<close>

function StateMachine_initialise ::
  "nat \<Rightarrow> (fref \<Rightarrow> message \<Rightarrow> iref \<Rightarrow> bool \<Rightarrow> heap \<Rightarrow> heap option) \<Rightarrow>
   heap \<Rightarrow> mref \<Rightarrow> iref option \<Rightarrow> bool \<Rightarrow> heap option" where
  "StateMachine_initialise n run h m None autoInitialiseModel = do {
     sm \<leftarrow> lookup (machineStore h) m;
     h1 \<leftarrow> StateMachine_accept n (log h (''initialise '' @ sm_name sm)) m;
     Some (setClean h1 m True)
   }"
| "StateMachine_initialise n run h m (Some i) autoInitialiseModel = do {
     sm \<leftarrow> lookup (machineStore h) m;
     h1 \<leftarrow> (if autoInitialiseModel \<and> clean sm = False
            then StateMachine_initialise n run h m None True else Some h);
     di \<leftarrow> lookup (instanceStore h1) i;
     sm1 \<leftarrow> lookup (machineStore h1) m;
     invoke run (onInitialise sm1) Undefined i False (log h1 (''initialise '' @ di_name di))
   }"
  by pat_completeness auto
termination
  by (relation "measure (\<lambda>(n, run, h, m, inst, a). case inst of None \<Rightarrow> 0 | Some i \<Rightarrow> 1)") auto

section \<open>\<^verbatim>\<open>Vertex.evaluate\<close> of \<^verbatim>\<open>Vertex.ts\<close>\<close>

text \<open>
  \<^verbatim>\<open>src/src/Vertex.ts\<close> is the class \<^verbatim>\<open>Vertex\<close> of the module \<^verbatim>\<open>fsm\<close>; the classes
  \<^verbatim>\<open>Transition\<close> and \<^verbatim>\<open>IActiveStateConfiguration\<close> it uses are declared elsewhere. Of a
  transition, \<^verbatim>\<open>evaluate\<close> reads the array \<^verbatim>\<open>traverse\<close> of actions. An action is called with
  the message, the instance and \<^verbatim>\<open>false\<close>, and acts on whatever state \<open>'w\<close> the callbacks
  can reach; the array itself is not in their reach. \<^verbatim>\<open>select\<close> is overridden by the
  subclasses, so \<^verbatim>\<open>evaluate\<close> takes it as an argument: it answers with a transition or
  \<^verbatim>\<open>undefined\<close>, and may itself act on the state (it calls guards).
\<close>

type_synonym ('i, 'w) Action = "message \<Rightarrow> 'i \<Rightarrow> bool \<Rightarrow> 'w \<Rightarrow> 'w"

record ('i, 'w) fsm_Transition =
  traverse :: "('i, 'w) Action list"

text \<open>The body of \<^verbatim>\<open>select\<close> in \<^verbatim>\<open>Vertex\<close> itself: \<^verbatim>\<open>return;\<close>.\<close>

definition Vertex_select :: "'v \<Rightarrow> message \<Rightarrow> 'i \<Rightarrow> 'w \<Rightarrow> ('i, 'w) fsm_Transition option \<times> 'w" where
  "Vertex_select v msg inst w = (None, w)"

text \<open>The loop \<^verbatim>\<open>for (var i = 0, l = transition.traverse.length; i < l; i++)\<close>.\<close>

function traverseLoop ::
  "('i, 'w) fsm_Transition \<Rightarrow> message \<Rightarrow> 'i \<Rightarrow> nat \<Rightarrow> nat \<Rightarrow> 'w \<Rightarrow> 'w" where
  "traverseLoop transition msg inst i l w =
     (if i < l then traverseLoop transition msg inst (i + 1) l ((traverse transition ! i) msg inst False w)
      else w)"
  by pat_completeness auto
termination
  by (relation "measure (\<lambda>(transition, msg, inst, i, l, w). l - i)") auto

definition Vertex_evaluate ::
  "('v \<Rightarrow> message \<Rightarrow> 'i \<Rightarrow> 'w \<Rightarrow> ('i, 'w) fsm_Transition option \<times> 'w) \<Rightarrow>
   'v \<Rightarrow> message \<Rightarrow> 'i \<Rightarrow> 'w \<Rightarrow> bool \<times> 'w" where
  "Vertex_evaluate select v msg inst w = (case select v msg inst w of
       (None, w1) \<Rightarrow> (False, w1)
     | (Some transition, w1) \<Rightarrow>
         (True, traverseLoop transition msg inst 0 (length (traverse transition)) w1))"

section \<open>Predicates and examples used by the theorems\<close>

text \<open>\<^verbatim>\<open>v instanceof PseudoState\<close> and \<^verbatim>\<open>v instanceof State\<close>.\<close>

definition isPseudoState :: "heap \<Rightarrow> vref \<Rightarrow> bool" where
  "isPseudoState h v = (case lookup (vertexStore h) v of
       None \<Rightarrow> False
     | Some vx \<Rightarrow> (case v_class vx of PseudoStateC k \<Rightarrow> True | _ \<Rightarrow> False))"

definition isState :: "heap \<Rightarrow> vref \<Rightarrow> bool" where
  "isState h v = (getState h v \<noteq> None)"

text \<open>
  \<open>sameParents h h'\<close>: every element of \<open>h\<close> is in \<open>h'\<close> with the parent it has in \<open>h\<close>.
  The parent fields are \<^verbatim>\<open>readonly\<close>, and every operation of the source takes a store
  to one that is related to it in this way.
\<close>

definition sameParents :: "heap \<Rightarrow> heap \<Rightarrow> bool" where
  "sameParents h h' \<longleftrightarrow>
     length (machineStore h) \<le> length (machineStore h') \<and>
     length (regionStore h) \<le> length (regionStore h') \<and>
     length (vertexStore h) \<le> length (vertexStore h') \<and>
     (\<forall>r < length (regionStore h). r_parent (regionStore h' ! r) = r_parent (regionStore h ! r)) \<and>
     (\<forall>v < length (vertexStore h). v_parent (vertexStore h' ! v) = v_parent (vertexStore h ! v))"

text \<open>
  A model built with the constructors: a machine \<open>m\<close> whose default region holds the
  states \<open>a\<close> and \<open>b\<close> and the initial pseudo state \<open>i\<close>; the state \<open>a\<close> is
  composite, its default region holds the state \<open>c\<close>; the transitions are \<open>i \<rightarrow> a\<close> and
  \<open>a \<rightarrow> b\<close>; the instance \<open>x\<close> is in \<open>b\<close> and, within \<open>a\<close>, in \<open>c\<close>.
  \<open>exampleHeap\<close> is the store that results.
\<close>

definition buildExample :: "heap option" where
  "buildExample = do {
     let (m, h1) = StateMachine_new emptyHeap ''m'';
     (a, h2) \<leftarrow> State_new h1 ''a'' (InOwner (MachineOwner m));
     (i, h3) \<leftarrow> PseudoState_new h2 ''i'' (InOwner (MachineOwner m)) Initial;
     (b, h4) \<leftarrow> State_new h3 ''b'' (InOwner (MachineOwner m));
     (c, h5) \<leftarrow> State_new h4 ''c'' (InOwner (StateOwner a));
     (t0, h6) \<leftarrow> Vertex_to h5 i (Some a) External;
     (t1, h7) \<leftarrow> Vertex_to h6 a (Some b) External;
     let (x, h8) = DictionaryInstance_new h7 ''x'';
     h9 \<leftarrow> setCurrent h8 x 0 b;
     setCurrent h9 x 1 c
   }"

definition exampleHeap :: heap where
  "exampleHeap =
   \<lparr>machineStore =
      [\<lparr>sm_name = ''m'', sm_regions = [0], sm_defaultRegion = Some 0,
        clean = False, onInitialise = []\<rparr>],
    regionStore =
      [\<lparr>r_name = ''default'', r_parent = MachineOwner 0,
        r_qualifiedName = ''m.default'', vertices = [0, 1, 2]\<rparr>,
       \<lparr>r_name = ''default'', r_parent = StateOwner 0,
        r_qualifiedName = ''m.default.a.default'', vertices = [3]\<rparr>],
    vertexStore =
      [\<lparr>v_name = ''a'', v_parent = 0, v_qualifiedName = ''m.default.a'',
        outgoing = [1], incoming = [0],
        v_class = StateC \<lparr>regions = [1], defaultRegion = Some 1, entryBehavior = [],
                          exitBehavior = []\<rparr>\<rparr>,
       \<lparr>v_name = ''i'', v_parent = 0, v_qualifiedName = ''m.default.i'',
        outgoing = [0], incoming = [], v_class = PseudoStateC Initial\<rparr>,
       \<lparr>v_name = ''b'', v_parent = 0, v_qualifiedName = ''m.default.b'',
        outgoing = [], incoming = [1],
        v_class = StateC \<lparr>regions = [], defaultRegion = None, entryBehavior = [],
                          exitBehavior = []\<rparr>\<rparr>,
       \<lparr>v_name = ''c'', v_parent = 1, v_qualifiedName = ''m.default.a.default.c'',
        outgoing = [], incoming = [],
        v_class = StateC \<lparr>regions = [], defaultRegion = None, entryBehavior = [],
                          exitBehavior = []\<rparr>\<rparr>],
    transitionStore =
      [\<lparr>source = 1, target = Some 0, kind = External, guard = GuardTrue,
        effectBehavior = []\<rparr>,
       \<lparr>source = 0, target = Some 2, kind = External, guard = GuardIsSource 1,
        effectBehavior = []\<rparr>],
    instanceStore =
      [\<lparr>di_name = ''x'',
        activeStateConfiguration = [''m.default'' \<mapsto> 2, ''m.default.a.default'' \<mapsto> 3]\<rparr>],
    console =
      [''created m.default'', ''created m.default.a'', ''created m.default.i'',
       ''created m.default.b'', ''created m.default.a.default'',
       ''created m.default.a.default.c'',
       ''created transition from m.default.i to m.default.a'',
       ''created transition from m.default.a to m.default.b'']\<rparr>"

text \<open>
  A \<^verbatim>\<open>select\<close> for the examples: on the message \<open>go\<close> it picks a transition with two
  actions, which record their calls in the state; other messages select nothing.
\<close>

definition exampleSelect ::
  "unit \<Rightarrow> message \<Rightarrow> unit \<Rightarrow> nat list \<Rightarrow> (unit, nat list) fsm_Transition option \<times> nat list" where
  "exampleSelect v msg inst w =
     (if msg = Primitive ''go''
      then (Some \<lparr>traverse = [\<lambda>m i d w. w @ [1], \<lambda>m i d w. w @ [if d then 3 else 2]]\<rparr>, w)
      else (None, w))"

text \<open>
  \<open>parentRoot h parent m\<close>: the parent argument of a vertex constructor is an object of
  the machine \<open>m\<close>; where it is a state or a machine that has recorded a default region,
  that region is an object of \<open>m\<close> too.
\<close>

definition parentRoot :: "heap \<Rightarrow> VertexParent \<Rightarrow> mref \<Rightarrow> bool" where
  "parentRoot h parent m = (case parent of
       InRegion r \<Rightarrow> getRoot h (RegionE r) = Some m
     | InOwner ow \<Rightarrow> isOwner h ow \<and> getRoot h (ownerElement ow) = Some m \<and>
         (case ownerDefaultRegion h ow of
            Some (Some r) \<Rightarrow> getRoot h (RegionE r) = Some m
          | _ \<Rightarrow> True))"

text \<open>The example after \<^verbatim>\<open>initialise()\<close>: the machine is clean, the visitor has printed.\<close>

definition compiledHeap :: heap where
  "compiledHeap = exampleHeap
     \<lparr>machineStore :=
        [\<lparr>sm_name = ''m'', sm_regions = [0], sm_defaultRegion = Some 0,
          clean = True, onInitialise = []\<rparr>],
      console := console exampleHeap @
        [''initialise m'', ''visiting m.default.a.default.c'',
         ''visiting m.default.a.default'',
         ''visiting External(m.default.a -> m.default.b)'', ''visiting m.default.a'',
         ''visiting External(m.default.i -> m.default.a)'', ''visiting m.default.i'',
         ''visiting m.default.b'', ''visiting m.default'', ''visiting m'']\<rparr>"

text \<open>A sequence of calls of \<^verbatim>\<open>setCurrent\<close> on one instance, and a read after a write.\<close>

fun setCurrents :: "heap \<Rightarrow> iref \<Rightarrow> (rref \<times> vref) list \<Rightarrow> heap option" where
  "setCurrents h i [] = Some h"
| "setCurrents h i ((r, s) # calls) = (case setCurrent h i r s of
       None \<Rightarrow> None
     | Some h' \<Rightarrow> setCurrents h' i calls)"

definition getCurrentAfterSet :: "heap \<Rightarrow> iref \<Rightarrow> rref \<Rightarrow> vref \<Rightarrow> rref \<Rightarrow> vref option option" where
  "getCurrentAfterSet h i r s r' = (case setCurrent h i r s of
       None \<Rightarrow> None
     | Some h' \<Rightarrow> getCurrent h' i r')"

text \<open>
  Two models built with the constructors. Both machines are named \<open>m\<close>; the first has
  the state \<open>s\<close>, the second the states \<open>s\<close> and \<open>u\<close>; the default regions of both have
  the qualified name \<open>m.default\<close>. \<open>collisionHeap\<close> is the store that results, with a new
  instance \<open>x\<close>.
\<close>

definition buildCollision :: "heap option" where
  "buildCollision = do {
     let (m0, h1) = StateMachine_new emptyHeap ''m'';
     (s, h2) \<leftarrow> State_new h1 ''s'' (InOwner (MachineOwner m0));
     let (m1, h3) = StateMachine_new h2 ''m'';
     (s', h4) \<leftarrow> State_new h3 ''s'' (InOwner (MachineOwner m1));
     (u, h5) \<leftarrow> State_new h4 ''u'' (InOwner (MachineOwner m1));
     let (x, h6) = DictionaryInstance_new h5 ''x'';
     Some h6
   }"

definition collisionHeap :: heap where
  "collisionHeap =
   \<lparr>machineStore =
      [\<lparr>sm_name = ''m'', sm_regions = [0], sm_defaultRegion = Some 0,
        clean = False, onInitialise = []\<rparr>,
       \<lparr>sm_name = ''m'', sm_regions = [1], sm_defaultRegion = Some 1,
        clean = False, onInitialise = []\<rparr>],
    regionStore =
      [\<lparr>r_name = ''default'', r_parent = MachineOwner 0,
        r_qualifiedName = ''m.default'', vertices = [0]\<rparr>,
       \<lparr>r_name = ''default'', r_parent = MachineOwner 1,
        r_qualifiedName = ''m.default'', vertices = [1, 2]\<rparr>],
    vertexStore =
      [\<lparr>v_name = ''s'', v_parent = 0, v_qualifiedName = ''m.default.s'',
        outgoing = [], incoming = [],
        v_class = StateC \<lparr>regions = [], defaultRegion = None, entryBehavior = [],
                          exitBehavior = []\<rparr>\<rparr>,
       \<lparr>v_name = ''s'', v_parent = 1, v_qualifiedName = ''m.default.s'',
        outgoing = [], incoming = [],
        v_class = StateC \<lparr>regions = [], defaultRegion = None, entryBehavior = [],
                          exitBehavior = []\<rparr>\<rparr>,
       \<lparr>v_name = ''u'', v_parent = 1, v_qualifiedName = ''m.default.u'',
        outgoing = [], incoming = [],
        v_class = StateC \<lparr>regions = [], defaultRegion = None, entryBehavior = [],
                          exitBehavior = []\<rparr>\<rparr>],
    transitionStore = [],
    instanceStore = [\<lparr>di_name = ''x'', activeStateConfiguration = Map.empty\<rparr>],
    console =
      [''created m.default'', ''created m.default.s'', ''created m.default'',
       ''created m.default.s'', ''created m.default.u'']\<rparr>"

text \<open>
  \<open>sameGraph h k\<close>: the two stores hold the same model, up to the \<^verbatim>\<open>clean\<close> flags, the
  default regions and initialise actions of the machines, the instances and the console.
  \<open>quiet f\<close>: a visit \<open>f\<close> that returns changes nothing but the console, and returns
  as well on every store that holds the same model.
\<close>

definition sameGraph :: "heap \<Rightarrow> heap \<Rightarrow> bool" where
  "sameGraph h k \<longleftrightarrow>
     regionStore h = regionStore k \<and> vertexStore h = vertexStore k \<and>
     transitionStore h = transitionStore k \<and>
     map sm_name (machineStore h) = map sm_name (machineStore k) \<and>
     map sm_regions (machineStore h) = map sm_regions (machineStore k)"

definition quiet :: "(heap \<Rightarrow> 'a \<Rightarrow> heap option) \<Rightarrow> bool" where
  "quiet f \<longleftrightarrow> (\<forall>h k x h'. sameGraph h k \<longrightarrow> f h x = Some h' \<longrightarrow>
     (\<exists>c. h' = h\<lparr>console := c\<rparr>) \<and> (\<exists>c. f k x = Some (k\<lparr>console := c\<rparr>)))"

section \<open>Lemmas on the store\<close>

lemma nth_update_any: "xs[i := x] ! j = (if i = j \<and> i < length xs then x else xs ! j)"
  by (cases "i < length xs") (simp_all add: nth_list_update list_update_beyond)

lemma buildExample_exampleHeap: "buildExample = Some exampleHeap"
  by (simp add: buildExample_def exampleHeap_def StateMachine_new_def emptyHeap_def State_new_def
      PseudoState_new_def Vertex_new_def parentRegion_def getDefaultRegion_def
      StateMachine_getDefaultRegion_def State_getDefaultRegion_def getState_def putState_def
      lookup_def Region_new_def NamedElement_new_def
      toString_def ownerElement_def log_def pushRegion_def getRoot.simps setClean_def
      pushVertex_def Vertex_to_def Transition_new_def pushOutgoing_def pushIncoming_def
      DictionaryInstance_new_def setCurrent_def Let_def namespaceSeparator_def defaultName_def
      numeral_2_eq_2 numeral_3_eq_3)

lemma getRoot_valid:
  assumes "getRoot h e = Some m"
  shows "m < length (machineStore h)"
  by (rule getRoot.raw_induct[where P = "\<lambda>h e m. m < length (machineStore h)", OF _ assms])
     (auto split: Element.splits option.splits if_splits)

lemma getRoot_mono_aux:
  assumes "getRoot h e = Some m"
  shows "\<forall>h'. sameParents h h' \<longrightarrow> getRoot h' e = Some m"
proof (rule getRoot.raw_induct[where P = "\<lambda>h e m. \<forall>h'. sameParents h h' \<longrightarrow> getRoot h' e = Some m", OF _ assms])
  fix getRoot' h e m
  assume IH: "\<And>h e m. getRoot' h e = Some m \<Longrightarrow> \<forall>h'. sameParents h h' \<longrightarrow> getRoot h' e = Some m"
    and body: "(case e of
       MachineE m \<Rightarrow> (if m < length (machineStore h) then Some m else None)
     | RegionE r \<Rightarrow> (case lookup (regionStore h) r of
           None \<Rightarrow> None
         | Some rg \<Rightarrow> getRoot' h (ownerElement (r_parent rg)))
     | VertexE v \<Rightarrow> (case lookup (vertexStore h) v of
           None \<Rightarrow> None
         | Some vx \<Rightarrow> getRoot' h (RegionE (v_parent vx)))) = Some m"
  show "\<forall>h'. sameParents h h' \<longrightarrow> getRoot h' e = Some m"
  proof (intro allI impI)
    fix h' assume sp: "sameParents h h'"
    show "getRoot h' e = Some m"
    proof (cases e)
      case (MachineE x)
      with body sp show ?thesis
        by (subst getRoot.simps) (auto simp: sameParents_def split: if_splits)
    next
      case (RegionE r)
      with body obtain rg where rg: "lookup (regionStore h) r = Some rg"
        and rec: "getRoot' h (ownerElement (r_parent rg)) = Some m"
        by (auto split: option.splits)
      from rg sp have "lookup (regionStore h') r = Some (regionStore h' ! r)"
        and "r_parent (regionStore h' ! r) = r_parent rg"
        by (auto simp: lookup_def sameParents_def split: if_splits)
      moreover from IH[OF rec] sp have "getRoot h' (ownerElement (r_parent rg)) = Some m" by blast
      ultimately show ?thesis using RegionE
        by (subst getRoot.simps) simp
    next
      case (VertexE v)
      with body obtain vx where vx: "lookup (vertexStore h) v = Some vx"
        and rec: "getRoot' h (RegionE (v_parent vx)) = Some m"
        by (auto split: option.splits)
      from vx sp have "lookup (vertexStore h') v = Some (vertexStore h' ! v)"
        and "v_parent (vertexStore h' ! v) = v_parent vx"
        by (auto simp: lookup_def sameParents_def split: if_splits)
      moreover from IH[OF rec] sp have "getRoot h' (RegionE (v_parent vx)) = Some m" by blast
      ultimately show ?thesis using VertexE
        by (subst getRoot.simps) simp
    qed
  qed
qed

lemma getRoot_mono: "getRoot h e = Some m \<Longrightarrow> sameParents h h' \<Longrightarrow> getRoot h' e = Some m"
  using getRoot_mono_aux by blast

lemma getRoot_Region:
  "lookup (regionStore h) r = Some rg \<Longrightarrow> getRoot h (RegionE r) = getRoot h (ownerElement (r_parent rg))"
  by (subst getRoot.simps) simp

lemma getRoot_Vertex:
  "lookup (vertexStore h) v = Some vx \<Longrightarrow> getRoot h (VertexE v) = getRoot h (RegionE (v_parent vx))"
  by (subst getRoot.simps) simp

lemma getRoot_Vertex_valid: "getRoot h (VertexE v) = Some m \<Longrightarrow> v < length (vertexStore h)"
  by (subst (asm) getRoot.simps) (auto simp: lookup_def split: option.splits if_splits)

lemma getRoot_Region_valid: "getRoot h (RegionE r) = Some m \<Longrightarrow> r < length (regionStore h)"
  by (subst (asm) getRoot.simps) (auto simp: lookup_def split: option.splits if_splits)

lemma NamedElement_new_total:
  "toString h e = Some ps \<Longrightarrow>
   \<exists>c. NamedElement_new h name e = Some (ps @ namespaceSeparator @ name, h\<lparr>console := c\<rparr>)"
  by (auto simp add: NamedElement_new_def Let_def log_def)

lemma Region_new_total:
  assumes root: "getRoot h (ownerElement p) = Some m" and ow: "isOwner h p"
  shows "\<exists>h'. Region_new h name p = Some (length (regionStore h), h') \<and>
           getRoot h' (RegionE (length (regionStore h))) = Some m \<and>
           clean (machineStore h' ! m) = False \<and>
           length (regionStore h') = Suc (length (regionStore h)) \<and>
           sameParents h h'"
proof -
  from ow obtain ps where ps: "toString h (ownerElement p) = Some ps"
    by (auto simp: isOwner_def toString_def ownerElement_def getState_def lookup_def
        split: Owner.splits option.splits if_splits)
  define qn where "qn = ps @ namespaceSeparator @ name"
  from NamedElement_new_total[OF ps, of name] obtain c where
    ne: "NamedElement_new h name (ownerElement p) = Some (qn, h\<lparr>console := c\<rparr>)"
    unfolding qn_def by blast
  define r where "r = length (regionStore h)"
  define h2 where "h2 = h\<lparr>console := c, regionStore := regionStore h @
               [\<lparr>r_name = name, r_parent = p, r_qualifiedName = qn, vertices = []\<rparr>]\<rparr>"
  from ow obtain h3 where h3: "pushRegion h2 p r = Some h3" and sp23: "sameParents h2 h3"
    and len3: "length (regionStore h3) = length (regionStore h2)"
    by (cases p)
      (auto simp: isOwner_def pushRegion_def h2_def getState_def putState_def lookup_def
        sameParents_def nth_list_update
        split: option.splits VertexClass.splits if_splits)
  have sp02: "sameParents h h2"
    by (auto simp: sameParents_def h2_def nth_append)
  have sp03: "sameParents h h3" using sp02 sp23 by (auto simp: sameParents_def)
  have "r < length (regionStore h2)" "r_parent (regionStore h2 ! r) = p"
    by (simp_all add: h2_def r_def)
  with sp23 have "r < length (regionStore h3)" "r_parent (regionStore h3 ! r) = p"
    by (auto simp: sameParents_def)
  then have "getRoot h3 (RegionE r) = getRoot h3 (ownerElement p)"
    by (subst getRoot_Region[of h3 r "regionStore h3 ! r"]) (auto simp: lookup_def)
  also have "\<dots> = Some m" using getRoot_mono[OF root sp03] .
  finally have root3: "getRoot h3 (RegionE r) = Some m" .
  have m3: "m < length (machineStore h3)" using getRoot_valid[OF root3] .
  have sp3c: "sameParents h3 (setClean h3 m False)"
    by (auto simp: sameParents_def setClean_def)
  have "Region_new h name p = Some (r, setClean h3 m False)"
    using h3[unfolded h2_def] root3
    by (simp add: Region_new_def ne Let_def r_def[symmetric])
  moreover have "getRoot (setClean h3 m False) (RegionE r) = Some m"
    using getRoot_mono[OF root3 sp3c] .
  moreover have "clean (machineStore (setClean h3 m False) ! m) = False"
    using m3 by (simp add: setClean_def)
  moreover have "length (regionStore (setClean h3 m False)) = Suc (length (regionStore h))"
    using len3 by (simp add: setClean_def h2_def)
  moreover have "sameParents h (setClean h3 m False)"
    using sp03 sp3c by (auto simp: sameParents_def)
  ultimately show ?thesis unfolding r_def by blast
qed

lemma Region_new_D:
  assumes "Region_new h name p = Some (r, h')"
  shows "r = length (regionStore h)"
    and "\<exists>ps. toString h (ownerElement p) = Some ps \<and>
           regionStore h' = regionStore h @
             [\<lparr>r_name = name, r_parent = p, r_qualifiedName = ps @ namespaceSeparator @ name, vertices = []\<rparr>]"
    and "isOwner h' p"
    and "ownerRegions h' p = map_option (\<lambda>rs. rs @ [r]) (ownerRegions h p)"
    and "ownerDefaultRegion h' p = ownerDefaultRegion h p"
    and "transitionStore h' = transitionStore h"
    and "instanceStore h' = instanceStore h"
    and "length (vertexStore h') = length (vertexStore h)"
    and "length (machineStore h') = length (machineStore h)"
  using assms
  by (cases p;
      auto simp: Region_new_def NamedElement_new_def Let_def log_def pushRegion_def setClean_def
        getState_def putState_def lookup_def isOwner_def ownerRegions_def ownerDefaultRegion_def
        nth_list_update nth_append
      split: Option.bind_splits option.splits VertexClass.splits if_splits)+

lemma getDefaultRegion_recorded:
  "ownerDefaultRegion h p = Some (Some r) \<Longrightarrow> getDefaultRegion h p = Some (r, h)"
  by (cases p)
     (auto simp: getDefaultRegion_def State_getDefaultRegion_def StateMachine_getDefaultRegion_def
        ownerDefaultRegion_def)

lemma getState_valid: "getState h s = Some st \<Longrightarrow> s < length (vertexStore h)"
  by (auto simp: getState_def lookup_def split: option.splits if_splits)

lemma getState_putState: "s < length (vertexStore h) \<Longrightarrow> getState (putState h s st) s = Some st"
  by (simp add: getState_def putState_def lookup_def)

lemma StateMachine_getDefaultRegion_cases:
  assumes "StateMachine_getDefaultRegion h m = Some (r, h')"
  shows "\<exists>sm. lookup (machineStore h) m = Some sm \<and>
           (sm_defaultRegion sm = Some r \<and> h' = h \<or>
            sm_defaultRegion sm = None \<and>
            (\<exists>h1 sm1. Region_new h defaultName (MachineOwner m) = Some (r, h1) \<and>
               lookup (machineStore h1) m = Some sm1 \<and>
               h' = h1\<lparr>machineStore := (machineStore h1)[m := sm1\<lparr>sm_defaultRegion := Some r\<rparr>]\<rparr>))"
  using assms
  by (auto simp: StateMachine_getDefaultRegion_def split: Option.bind_splits option.splits)

lemma State_getDefaultRegion_cases:
  assumes "State_getDefaultRegion h s = Some (r, h')"
  shows "\<exists>st. getState h s = Some st \<and>
           (defaultRegion st = Some r \<and> h' = h \<or>
            defaultRegion st = None \<and>
            (\<exists>h1 st1. Region_new h defaultName (StateOwner s) = Some (r, h1) \<and>
               getState h1 s = Some st1 \<and>
               h' = putState h1 s (st1\<lparr>defaultRegion := Some r\<rparr>)))"
  using assms
  by (auto simp: State_getDefaultRegion_def split: Option.bind_splits option.splits)

lemma getDefaultRegion_D:
  assumes "getDefaultRegion h p = Some (r, h')"
  shows "ownerDefaultRegion h' p = Some (Some r)"
    and "ownerDefaultRegion h p = Some (Some r) \<and> h' = h \<or>
         ownerDefaultRegion h p = Some None \<and>
         (\<exists>h1. Region_new h defaultName p = Some (r, h1) \<and> sameParents h1 h' \<and>
            regionStore h' = regionStore h1 \<and>
            (\<forall>m. clean (machineStore h' ! m) = clean (machineStore h1 ! m)) \<and>
            ownerRegions h' p = ownerRegions h1 p)"
proof -
  show "ownerDefaultRegion h' p = Some (Some r)"
  proof (cases p)
    case (StateOwner s)
    from assms StateOwner have "State_getDefaultRegion h s = Some (r, h')"
      by (simp add: getDefaultRegion_def)
    from State_getDefaultRegion_cases[OF this] obtain st where st: "getState h s = Some st"
      and alt: "defaultRegion st = Some r \<and> h' = h \<or>
            defaultRegion st = None \<and>
            (\<exists>h1 st1. Region_new h defaultName (StateOwner s) = Some (r, h1) \<and>
               getState h1 s = Some st1 \<and>
               h' = putState h1 s (st1\<lparr>defaultRegion := Some r\<rparr>))" by blast
    from alt show ?thesis
    proof
      assume "defaultRegion st = Some r \<and> h' = h"
      with st StateOwner show ?thesis by (simp add: ownerDefaultRegion_def)
    next
      assume "defaultRegion st = None \<and>
            (\<exists>h1 st1. Region_new h defaultName (StateOwner s) = Some (r, h1) \<and>
               getState h1 s = Some st1 \<and>
               h' = putState h1 s (st1\<lparr>defaultRegion := Some r\<rparr>))"
      then obtain h1 st1 where st1: "getState h1 s = Some st1"
        and h': "h' = putState h1 s (st1\<lparr>defaultRegion := Some r\<rparr>)" by blast
      from st1 have "getState h' s = Some (st1\<lparr>defaultRegion := Some r\<rparr>)"
        unfolding h' by (rule getState_putState[OF getState_valid])
      then show ?thesis using StateOwner by (simp add: ownerDefaultRegion_def)
    qed
  next
    case (MachineOwner m)
    with assms StateMachine_getDefaultRegion_cases[of h m r h'] show ?thesis
      by (auto simp: getDefaultRegion_def ownerDefaultRegion_def lookup_def split: if_splits)
  qed
  show "ownerDefaultRegion h p = Some (Some r) \<and> h' = h \<or>
         ownerDefaultRegion h p = Some None \<and>
         (\<exists>h1. Region_new h defaultName p = Some (r, h1) \<and> sameParents h1 h' \<and>
            regionStore h' = regionStore h1 \<and>
            (\<forall>m. clean (machineStore h' ! m) = clean (machineStore h1 ! m)) \<and>
            ownerRegions h' p = ownerRegions h1 p)"
  proof (cases p)
    case (StateOwner s)
    from assms StateOwner have "State_getDefaultRegion h s = Some (r, h')"
      by (simp add: getDefaultRegion_def)
    from State_getDefaultRegion_cases[OF this] obtain st where st: "getState h s = Some st"
      and alt: "defaultRegion st = Some r \<and> h' = h \<or>
            defaultRegion st = None \<and>
            (\<exists>h1 st1. Region_new h defaultName (StateOwner s) = Some (r, h1) \<and>
               getState h1 s = Some st1 \<and>
               h' = putState h1 s (st1\<lparr>defaultRegion := Some r\<rparr>))" by blast
    from alt show ?thesis
    proof
      assume "defaultRegion st = Some r \<and> h' = h"
      with st StateOwner show ?thesis by (simp add: ownerDefaultRegion_def)
    next
      assume "defaultRegion st = None \<and>
            (\<exists>h1 st1. Region_new h defaultName (StateOwner s) = Some (r, h1) \<and>
               getState h1 s = Some st1 \<and>
               h' = putState h1 s (st1\<lparr>defaultRegion := Some r\<rparr>))"
      then obtain h1 st1 where n: "defaultRegion st = None"
        and rn: "Region_new h defaultName (StateOwner s) = Some (r, h1)"
        and st1: "getState h1 s = Some st1"
        and h': "h' = putState h1 s (st1\<lparr>defaultRegion := Some r\<rparr>)" by blast
      have "sameParents h1 h'" using st1 unfolding h'
        by (auto simp: sameParents_def putState_def nth_update_any)
      moreover have "regionStore h' = regionStore h1" "\<forall>m. clean (machineStore h' ! m) = clean (machineStore h1 ! m)"
        unfolding h' by (simp_all add: putState_def)
      moreover have "ownerRegions h' (StateOwner s) = ownerRegions h1 (StateOwner s)"
        using st1 unfolding h'
        by (auto simp: ownerRegions_def getState_def putState_def lookup_def
            split: option.splits VertexClass.splits if_splits)
      ultimately show ?thesis using n st rn StateOwner
        by (auto simp: ownerDefaultRegion_def)
    qed
  next
    case (MachineOwner mo)
    from assms MachineOwner have "StateMachine_getDefaultRegion h mo = Some (r, h')"
      by (simp add: getDefaultRegion_def)
    from StateMachine_getDefaultRegion_cases[OF this] obtain sm where sm: "lookup (machineStore h) mo = Some sm"
      and alt: "sm_defaultRegion sm = Some r \<and> h' = h \<or>
            sm_defaultRegion sm = None \<and>
            (\<exists>h1 sm1. Region_new h defaultName (MachineOwner mo) = Some (r, h1) \<and>
               lookup (machineStore h1) mo = Some sm1 \<and>
               h' = h1\<lparr>machineStore := (machineStore h1)[mo := sm1\<lparr>sm_defaultRegion := Some r\<rparr>]\<rparr>)" by blast
    from alt show ?thesis
    proof
      assume "sm_defaultRegion sm = Some r \<and> h' = h"
      with sm MachineOwner show ?thesis by (simp add: ownerDefaultRegion_def)
    next
      assume "sm_defaultRegion sm = None \<and>
            (\<exists>h1 sm1. Region_new h defaultName (MachineOwner mo) = Some (r, h1) \<and>
               lookup (machineStore h1) mo = Some sm1 \<and>
               h' = h1\<lparr>machineStore := (machineStore h1)[mo := sm1\<lparr>sm_defaultRegion := Some r\<rparr>]\<rparr>)"
      then obtain h1 sm1 where n: "sm_defaultRegion sm = None"
        and rn: "Region_new h defaultName (MachineOwner mo) = Some (r, h1)"
        and sm1: "lookup (machineStore h1) mo = Some sm1"
        and h': "h' = h1\<lparr>machineStore := (machineStore h1)[mo := sm1\<lparr>sm_defaultRegion := Some r\<rparr>]\<rparr>" by blast
      have "sameParents h1 h'" unfolding h'
        by (auto simp: sameParents_def)
      moreover have "regionStore h' = regionStore h1" unfolding h' by simp
      moreover have "\<forall>m. clean (machineStore h' ! m) = clean (machineStore h1 ! m)"
        using sm1 unfolding h' by (auto simp: lookup_def nth_list_update split: if_splits)
      moreover have "ownerRegions h' (MachineOwner mo) = ownerRegions h1 (MachineOwner mo)"
        using sm1 unfolding h'
        by (auto simp: ownerRegions_def lookup_def split: if_splits)
      ultimately show ?thesis using n sm rn MachineOwner
        by (auto simp: ownerDefaultRegion_def)
    qed
  qed
qed

lemma getDefaultRegion_create:
  assumes root: "getRoot h (ownerElement p) = Some m" and ow: "isOwner h p"
    and none: "ownerDefaultRegion h p = Some None"
  shows "\<exists>h'. getDefaultRegion h p = Some (length (regionStore h), h')"
proof -
  from Region_new_total[OF root ow, of defaultName] obtain h1 where
    rn: "Region_new h defaultName p = Some (length (regionStore h), h1)" by blast
  from Region_new_D(3)[OF rn] have "isOwner h1 p" .
  with rn none show ?thesis
    by (cases p)
       (auto simp: getDefaultRegion_def State_getDefaultRegion_def StateMachine_getDefaultRegion_def
          ownerDefaultRegion_def isOwner_def lookup_def
        split: option.splits if_splits)
qed

lemma Transition_new_D:
  assumes "Transition_new h src tgt knd = Some (t, h')"
  shows "t = length (transitionStore h)"
    and "transitionStore h' = transitionStore h @
           [\<lparr>source = src, target = tgt,
             kind = (case tgt of None \<Rightarrow> Internal | Some g \<Rightarrow> knd),
             guard = (if isPseudoState h src then GuardTrue else GuardIsSource t),
             effectBehavior = []\<rparr>]"
    and "regionStore h' = regionStore h"
    and "length (vertexStore h') = length (vertexStore h)"
    and "\<forall>v. v_class (vertexStore h' ! v) = v_class (vertexStore h ! v) \<and> v_parent (vertexStore h' ! v) = v_parent (vertexStore h ! v)"
    and "\<forall>g. tgt = Some g \<longrightarrow> g < length (vertexStore h) \<and>
           incoming (vertexStore h' ! g) = incoming (vertexStore h ! g) @ [t]"
    and "src < length (vertexStore h)"
    and "length (machineStore h') = length (machineStore h)"
    and "instanceStore h' = instanceStore h"
    and "outgoing (vertexStore h' ! src) = outgoing (vertexStore h ! src) @ [t]"
  using assms
  by (auto simp: Transition_new_def Let_def pushOutgoing_def pushIncoming_def setClean_def setKind_def
        log_def lookup_def isPseudoState_def nth_update_any nth_append
      split: Option.bind_splits option.splits VertexClass.splits if_splits)

lemma sameParents_refl: "sameParents h h"
  by (simp add: sameParents_def)

lemma sameParents_trans: "sameParents h1 h2 \<Longrightarrow> sameParents h2 h3 \<Longrightarrow> sameParents h1 h3"
  by (auto simp: sameParents_def)

lemma sameParentsI:
  "length (machineStore h) = length (machineStore h') \<Longrightarrow> regionStore h' = regionStore h \<Longrightarrow>
   length (vertexStore h') = length (vertexStore h) \<Longrightarrow>
   \<forall>v. v_parent (vertexStore h' ! v) = v_parent (vertexStore h ! v) \<Longrightarrow>
   sameParents h h' \<and> sameParents h' h"
  by (auto simp: sameParents_def)

lemma Transition_new_cases:
  assumes "Transition_new h src tgt knd = Some (t, h')"
  obtains svx h2 m h4 line where
    "lookup (vertexStore h) src = Some svx"
    "pushOutgoing (h\<lparr>transitionStore := transitionStore h @
               [\<lparr>source = src, target = tgt, kind = knd,
                 guard = (case v_class svx of PseudoStateC k \<Rightarrow> GuardTrue
                          | _ \<Rightarrow> GuardIsSource (length (transitionStore h))),
                 effectBehavior = []\<rparr>]\<rparr>) src (length (transitionStore h)) = Some h2"
    "getRoot h2 (VertexE src) = Some m"
    "(case tgt of Some g \<Rightarrow> pushIncoming (setClean h2 m False) g (length (transitionStore h))
            | None \<Rightarrow> Some (setKind (setClean h2 m False) (length (transitionStore h)) Internal)) = Some h4"
    "h' = log h4 line"
  using assms
  by (auto simp: Transition_new_def Let_def split: Option.bind_splits)

lemma Transition_new_machines:
  assumes "Transition_new h src tgt knd = Some (t, h')"
  shows "\<exists>m. (\<exists>h2. getRoot h2 (VertexE src) = Some m \<and> sameParents h2 h) \<and>
           machineStore h' = (machineStore h)[m := (machineStore h ! m)\<lparr>clean := False\<rparr>]"
proof -
  from assms obtain svx h2 m h4 line where
    lk: "lookup (vertexStore h) src = Some svx" and
    po: "pushOutgoing (h\<lparr>transitionStore := transitionStore h @
               [\<lparr>source = src, target = tgt, kind = knd,
                 guard = (case v_class svx of PseudoStateC k \<Rightarrow> GuardTrue
                          | _ \<Rightarrow> GuardIsSource (length (transitionStore h))),
                 effectBehavior = []\<rparr>]\<rparr>) src (length (transitionStore h)) = Some h2"
    and r2: "getRoot h2 (VertexE src) = Some m"
    and h4: "(case tgt of Some g \<Rightarrow> pushIncoming (setClean h2 m False) g (length (transitionStore h))
            | None \<Rightarrow> Some (setKind (setClean h2 m False) (length (transitionStore h)) Internal)) = Some h4"
    and h': "h' = log h4 line" by (rule Transition_new_cases)
  from po have sp: "sameParents h2 h" and ms2: "machineStore h2 = machineStore h"
    by (auto simp: pushOutgoing_def lookup_def sameParents_def nth_update_any
        split: Option.bind_splits if_splits)
  from h4 have "machineStore h4 = machineStore (setClean h2 m False)"
    by (cases tgt) (auto simp: pushIncoming_def setKind_def split: Option.bind_splits)
  with ms2 h' have "machineStore h' = (machineStore h)[m := (machineStore h ! m)\<lparr>clean := False\<rparr>]"
    by (simp add: log_def setClean_def)
  with r2 sp show ?thesis by blast
qed

lemma Transition_new_root:
  assumes "Transition_new h src tgt knd = Some (t, h')"
  shows "\<exists>m. getRoot h (VertexE src) = Some m \<and> getRoot h' (VertexE src) = Some m \<and>
           m < length (machineStore h') \<and> clean (machineStore h' ! m) = False"
proof -
  from Transition_new_machines[OF assms] obtain m h2 where
    r2: "getRoot h2 (VertexE src) = Some m" and sp: "sameParents h2 h"
    and ms: "machineStore h' = (machineStore h)[m := (machineStore h ! m)\<lparr>clean := False\<rparr>]"
    by blast
  have r: "getRoot h (VertexE src) = Some m" using getRoot_mono[OF r2 sp] .
  have m: "m < length (machineStore h)" using getRoot_valid[OF r] .
  from Transition_new_D[OF assms] have "sameParents h h'"
    using sameParentsI[of h h'] by simp
  from getRoot_mono[OF r this] r m ms show ?thesis by simp
qed

lemma Transition_new_total:
  assumes root: "getRoot h (VertexE src) = Some m"
    and tgt: "\<forall>g. tgt = Some g \<longrightarrow> g < length (vertexStore h)"
  shows "\<exists>h'. Transition_new h src tgt knd = Some (length (transitionStore h), h')"
proof -
  have src: "src < length (vertexStore h)" using getRoot_Vertex_valid[OF root] .
  define t where "t = length (transitionStore h)"
  define g where "g = (case v_class (vertexStore h ! src) of PseudoStateC k \<Rightarrow> GuardTrue | _ \<Rightarrow> GuardIsSource t)"
  define h1 where "h1 = h\<lparr>transitionStore := transitionStore h @
               [\<lparr>source = src, target = tgt, kind = knd, guard = g, effectBehavior = []\<rparr>]\<rparr>"
  define h2 where "h2 = h1\<lparr>vertexStore := (vertexStore h1)[src := (vertexStore h1 ! src)\<lparr>outgoing := outgoing (vertexStore h1 ! src) @ [t]\<rparr>]\<rparr>"
  have po: "pushOutgoing h1 src t = Some h2"
    using src by (simp add: pushOutgoing_def lookup_def h1_def h2_def)
  have "sameParents h h2" using src
    by (auto simp: sameParents_def h1_def h2_def nth_update_any)
  from getRoot_mono[OF root this] have r2: "getRoot h2 (VertexE src) = Some m" .
  define h3 where "h3 = setClean h2 m False"
  have len3: "length (vertexStore h3) = length (vertexStore h)"
    by (simp add: h3_def setClean_def h2_def h1_def)
  obtain h4 where h4: "(case tgt of Some g \<Rightarrow> pushIncoming h3 g t | None \<Rightarrow> Some (setKind h3 t Internal)) = Some h4"
    and len4: "length (vertexStore h4) = length (vertexStore h)"
    using tgt len3 by (cases tgt) (auto simp: pushIncoming_def lookup_def setKind_def)
  have "\<exists>s1. toString h4 (VertexE src) = Some s1"
    using src len4 by (simp add: toString_def lookup_def)
  moreover have "\<exists>s2. (case tgt of Some g \<Rightarrow> toString h4 (VertexE g) | None \<Rightarrow> Some ''undefined'') = Some s2"
    using tgt len4 by (cases tgt) (auto simp: toString_def lookup_def)
  ultimately show ?thesis
    using src po[unfolded h1_def g_def] r2 h4[unfolded h3_def]
    by (auto simp: Transition_new_def Let_def lookup_def t_def[symmetric])
qed

lemma Vertex_new_total:
  assumes pr: "parentRegion h parent = Some (rg, h0)"
    and root: "getRoot h0 (RegionE rg) = Some m"
  shows "\<exists>c qn. Vertex_new h name parent cls =
           Some (length (vertexStore h0),
             setClean (h0\<lparr>console := c,
                 vertexStore := vertexStore h0 @
                   [\<lparr>v_name = name, v_parent = rg, v_qualifiedName = qn,
                     outgoing = [], incoming = [], v_class = cls\<rparr>],
                 regionStore := (regionStore h0)
                   [rg := (regionStore h0 ! rg)\<lparr>vertices := vertices (regionStore h0 ! rg) @ [length (vertexStore h0)]\<rparr>]\<rparr>)
               m False)"
proof -
  have rgv: "rg < length (regionStore h0)" using getRoot_Region_valid[OF root] .
  then have ps: "toString h0 (RegionE rg) = Some (r_qualifiedName (regionStore h0 ! rg))"
    by (simp add: toString_def lookup_def)
  define qn where "qn = r_qualifiedName (regionStore h0 ! rg) @ namespaceSeparator @ name"
  from NamedElement_new_total[OF ps, of name] obtain c where
    ne: "NamedElement_new h0 name (RegionE rg) = Some (qn, h0\<lparr>console := c\<rparr>)"
    unfolding qn_def by blast
  define v where "v = length (vertexStore h0)"
  define h3 where "h3 = h0\<lparr>console := c,
                 vertexStore := vertexStore h0 @
                   [\<lparr>v_name = name, v_parent = rg, v_qualifiedName = qn,
                     outgoing = [], incoming = [], v_class = cls\<rparr>],
                 regionStore := (regionStore h0)
                   [rg := (regionStore h0 ! rg)\<lparr>vertices := vertices (regionStore h0 ! rg) @ [v]\<rparr>]\<rparr>"
  have sp: "sameParents h0 h3"
    by (auto simp: sameParents_def h3_def nth_append nth_update_any)
  have "lookup (vertexStore h3) v = Some \<lparr>v_name = name, v_parent = rg, v_qualifiedName = qn,
                     outgoing = [], incoming = [], v_class = cls\<rparr>"
    by (simp add: lookup_def h3_def v_def)
  from getRoot_Vertex[OF this] getRoot_mono[OF root sp]
  have r3: "getRoot h3 (VertexE v) = Some m" by simp
  have "Vertex_new h name parent cls = Some (v, setClean h3 m False)"
    using pr ne rgv r3[unfolded h3_def]
    by (simp add: Vertex_new_def Let_def pushVertex_def lookup_def v_def[symmetric] h3_def)
  then show ?thesis unfolding h3_def v_def by blast
qed

lemma State_exit_total:
  assumes st: "getState h s = Some st" and root: "getRoot h (VertexE s) = Some m"
  shows "State_exit h s a =
           Some (setClean (putState h s (st\<lparr>exitBehavior := exitBehavior st @ [a]\<rparr>)) m False)"
proof -
  have "sameParents h (putState h s (st\<lparr>exitBehavior := exitBehavior st @ [a]\<rparr>))"
    by (auto simp: sameParents_def putState_def nth_update_any)
  from getRoot_mono[OF root this] st show ?thesis
    by (simp add: State_exit_def Let_def)
qed

lemma State_enter_exit: "State_enter h s a = State_exit h s a"
  by (simp add: State_enter_def State_exit_def)

lemma Transition_effect_total:
  assumes tr: "lookup (transitionStore h) t = Some tr" and root: "getRoot h (VertexE (source tr)) = Some m"
  shows "Transition_effect h t a =
           Some (setClean (h\<lparr>transitionStore :=
                (transitionStore h)[t := tr\<lparr>effectBehavior := effectBehavior tr @ [a]\<rparr>]\<rparr>) m False)"
proof -
  have "sameParents h (h\<lparr>transitionStore :=
                (transitionStore h)[t := tr\<lparr>effectBehavior := effectBehavior tr @ [a]\<rparr>]\<rparr>)"
    by (auto simp: sameParents_def)
  from getRoot_mono[OF root this] tr show ?thesis
    by (simp add: Transition_effect_def Let_def)
qed

lemma getRoot_setClean: "getRoot h e = Some m \<Longrightarrow> getRoot (setClean h m' b) e = Some m"
  by (erule getRoot_mono) (auto simp: sameParents_def setClean_def)

lemma clean_setClean: "m < length (machineStore h) \<Longrightarrow> clean (machineStore (setClean h m b) ! m) = b"
  by (simp add: setClean_def)

lemma example_facts:
  "getRoot exampleHeap (VertexE 0) = Some 0"
  "getRoot exampleHeap (VertexE 1) = Some 0"
  "getRoot exampleHeap (VertexE 2) = Some 0"
  "getRoot exampleHeap (VertexE 3) = Some 0"
  "getRoot exampleHeap (RegionE 0) = Some 0"
  "getRoot exampleHeap (RegionE 1) = Some 0"
  "getRoot exampleHeap (MachineE 0) = Some 0"
  by (simp_all add: exampleHeap_def getRoot.simps lookup_def ownerElement_def)

lemma initialise_exampleHeap:
  "StateMachine_initialise 4 run exampleHeap 0 None True = Some compiledHeap"
  by (simp add: compiledHeap_def exampleHeap_def StateMachine_accept_def lookup_def log_def
      visitElement_def visitVertex_def visitTransition_def Transition_toString_def toString_def
      kindName_def setClean_def numeral_eq_Suc)

lemma compiled_facts:
  "getRoot compiledHeap (VertexE 0) = Some 0"
  "getRoot compiledHeap (VertexE 2) = Some 0"
  "getRoot compiledHeap (RegionE 0) = Some 0"
  "clean (machineStore compiledHeap ! 0) = True"
  "getState compiledHeap 2 =
     Some \<lparr>regions = [], defaultRegion = None, entryBehavior = [], exitBehavior = []\<rparr>"
  "lookup (transitionStore compiledHeap) 1 =
     Some \<lparr>source = 0, target = Some 2, kind = External, guard = GuardIsSource 1, effectBehavior = []\<rparr>"
  "isOwner compiledHeap (StateOwner 2)"
  "parentRoot compiledHeap (InOwner (StateOwner 2)) 0"
  by (simp_all add: compiledHeap_def exampleHeap_def getRoot.simps lookup_def ownerElement_def
      getState_def isOwner_def parentRoot_def ownerDefaultRegion_def)

lemma buildCollision_collisionHeap: "buildCollision = Some collisionHeap"
  by (simp add: buildCollision_def collisionHeap_def StateMachine_new_def emptyHeap_def State_new_def
      Vertex_new_def parentRegion_def getDefaultRegion_def
      StateMachine_getDefaultRegion_def lookup_def Region_new_def NamedElement_new_def
      toString_def ownerElement_def log_def pushRegion_def getRoot.simps setClean_def
      pushVertex_def DictionaryInstance_new_def Let_def namespaceSeparator_def defaultName_def
      numeral_2_eq_2)

section \<open>Entry and exit behavior\<close>

text \<open>
  Claim C1: the entry builder \<^verbatim>\<open>enter\<close> appends its action to the entry-behavior list of
  the state and leaves the exit-behavior list unchanged, and \<^verbatim>\<open>exit\<close> appends to the
  exit-behavior list.

  The code does not do this. On the state \<open>b\<close> of the example, whose two lists are empty,
  \<^verbatim>\<open>enter(7)\<close> leaves \<^verbatim>\<open>entryBehavior\<close> empty and puts the action in \<^verbatim>\<open>exitBehavior\<close>: the
  body of \<^verbatim>\<open>enter\<close> is the body of \<^verbatim>\<open>exit\<close>, and nothing in the source writes to
  \<^verbatim>\<open>entryBehavior\<close>.
\<close>

theorem State_enter_pushes_exitBehavior:
  "State_enter exampleHeap 2 7 \<bind> (\<lambda>h. getState h 2) =
     Some \<lparr>regions = [], defaultRegion = None, entryBehavior = [], exitBehavior = [7]\<rparr> \<and>
   State_enter exampleHeap 2 7 = State_exit exampleHeap 2 7"
proof -
  have st: "getState exampleHeap 2 =
      Some \<lparr>regions = [], defaultRegion = None, entryBehavior = [], exitBehavior = []\<rparr>"
    by (simp add: getState_def lookup_def exampleHeap_def)
  have len: "2 < length (vertexStore exampleHeap)" by (simp add: exampleHeap_def)
  show ?thesis
    using len
    by (simp add: State_enter_exit State_exit_total[OF st example_facts(3)]
        getState_def putState_def setClean_def lookup_def)
qed

section \<open>Guards and effects of a transition\<close>

text \<open>
  Claim C9: \<^verbatim>\<open>when(guard)\<close> and \<^verbatim>\<open>else()\<close> replace the guard of the transition and nothing
  else, so the \<^verbatim>\<open>clean\<close> flag of the root machine keeps its value; \<^verbatim>\<open>effect(action)\<close>
  appends the action to the effect behavior and sets the flag of the root to false.
\<close>

theorem Transition_guard_frame:
  assumes "lookup (transitionStore h) t = Some tr"
    and "getRoot h (VertexE (source tr)) = Some m"
  shows "(\<exists>h'. Transition_when h t g = Some h' \<and>
            h' = h\<lparr>transitionStore := (transitionStore h)[t := tr\<lparr>guard := g\<rparr>]\<rparr> \<and>
            clean (machineStore h' ! m) = clean (machineStore h ! m)) \<and>
         (\<exists>h'. Transition_else h t = Some h' \<and>
            h' = h\<lparr>transitionStore := (transitionStore h)[t := tr\<lparr>guard := GuardFalse\<rparr>]\<rparr> \<and>
            clean (machineStore h' ! m) = clean (machineStore h ! m)) \<and>
         (\<exists>h'. Transition_effect h t a = Some h' \<and>
            lookup (transitionStore h') t = Some (tr\<lparr>effectBehavior := effectBehavior tr @ [a]\<rparr>) \<and>
            getRoot h' (VertexE (source tr)) = Some m \<and>
            clean (machineStore h' ! m) = False)"
proof (intro conjI)
  show "\<exists>h'. Transition_when h t g = Some h' \<and>
            h' = h\<lparr>transitionStore := (transitionStore h)[t := tr\<lparr>guard := g\<rparr>]\<rparr> \<and>
            clean (machineStore h' ! m) = clean (machineStore h ! m)"
    using assms(1) by (simp add: Transition_when_def)
  show "\<exists>h'. Transition_else h t = Some h' \<and>
            h' = h\<lparr>transitionStore := (transitionStore h)[t := tr\<lparr>guard := GuardFalse\<rparr>]\<rparr> \<and>
            clean (machineStore h' ! m) = clean (machineStore h ! m)"
    using assms(1) by (simp add: Transition_else_def)
  have m: "m < length (machineStore h)" using getRoot_valid[OF assms(2)] .
  have t: "t < length (transitionStore h)" using assms(1) by (simp add: lookup_def split: if_splits)
  define h1 where "h1 = h\<lparr>transitionStore :=
                (transitionStore h)[t := tr\<lparr>effectBehavior := effectBehavior tr @ [a]\<rparr>]\<rparr>"
  have "sameParents h h1" by (simp add: sameParents_def h1_def)
  from getRoot_setClean[OF getRoot_mono[OF assms(2) this]]
  have "getRoot (setClean h1 m False) (VertexE (source tr)) = Some m" .
  moreover have "lookup (transitionStore (setClean h1 m False)) t = Some (tr\<lparr>effectBehavior := effectBehavior tr @ [a]\<rparr>)"
    using t by (simp add: setClean_def h1_def lookup_def)
  moreover have "clean (machineStore (setClean h1 m False) ! m) = False"
    using m by (simp add: setClean_def h1_def)
  ultimately show "\<exists>h'. Transition_effect h t a = Some h' \<and>
            lookup (transitionStore h') t = Some (tr\<lparr>effectBehavior := effectBehavior tr @ [a]\<rparr>) \<and>
            getRoot h' (VertexE (source tr)) = Some m \<and>
            clean (machineStore h' ! m) = False"
    using Transition_effect_total[OF assms, of a] unfolding h1_def by simp
qed

theorem Transition_guard_frame_witness:
  "lookup (transitionStore exampleHeap) 1 =
     Some \<lparr>source = 0, target = Some 2, kind = External, guard = GuardIsSource 1, effectBehavior = []\<rparr> \<and>
   getRoot exampleHeap (VertexE 0) = Some 0 \<and>
   Transition_when exampleHeap 1 (GuardUser 5) \<noteq> None \<and>
   Transition_else exampleHeap 1 \<noteq> None \<and>
   Transition_effect exampleHeap 1 9 \<noteq> None"
proof -
  have h1: "lookup (transitionStore exampleHeap) 1 =
     Some \<lparr>source = 0, target = Some 2, kind = External, guard = GuardIsSource 1, effectBehavior = []\<rparr>"
    by (simp add: lookup_def exampleHeap_def)
  have h2: "getRoot exampleHeap (VertexE (source \<lparr>source = 0, target = Some 2, kind = External, guard = GuardIsSource 1, effectBehavior = []\<rparr>)) = Some 0"
    by (simp add: example_facts)
  from Transition_guard_frame[OF h1 h2, of "GuardUser 5" 9] h1 example_facts(1)
  show ?thesis by auto
qed

section \<open>Completeness of regions, states and machines\<close>

lemma every_True: "every p xs = Some True \<longleftrightarrow> (\<forall>x \<in> set xs. p x = Some True)"
  by (induction xs) (auto split: option.splits)

lemma every_value:
  "\<forall>x \<in> set xs. p x \<noteq> None \<Longrightarrow> every p xs = Some (\<forall>x \<in> set xs. p x = Some True)"
  by (induction xs) (auto split: option.splits)

text \<open>
  Claim C5: for an instance, a region is complete iff the current state the instance
  holds for the region is defined and final, a state being final iff it has no outgoing
  transition; a state is complete iff every one of its regions is complete, which a
  simple state is vacuously; a machine is complete iff every one of its regions is
  complete.

  The result \<open>Some True\<close> is "complete". Where no region asks for an object that the
  store does not hold, the result is \<open>Some\<close> of the truth value of the right-hand side.
\<close>

theorem isComplete_characterised:
  "(lookup (instanceStore h) i = Some di \<and> lookup (regionStore h) r = Some rg \<longrightarrow>
      (activeStateConfiguration di (r_qualifiedName rg) = None \<longrightarrow>
         Region_isComplete h i r = Some False) \<and>
      (\<forall>s vx st. activeStateConfiguration di (r_qualifiedName rg) = Some s \<and>
         lookup (vertexStore h) s = Some vx \<and> v_class vx = StateC st \<longrightarrow>
         State_isFinal h s = Some (outgoing vx = []) \<and>
         Region_isComplete h i r = Some (outgoing vx = []))) \<and>
   (getState h s = Some st \<longrightarrow>
      (State_isComplete h i s = Some True \<longleftrightarrow>
         (\<forall>r \<in> set (regions st). Region_isComplete h i r = Some True)) \<and>
      (State_isSimple h s = Some True \<longrightarrow> State_isComplete h i s = Some True) \<and>
      ((\<forall>r \<in> set (regions st). Region_isComplete h i r \<noteq> None) \<longrightarrow>
         State_isComplete h i s = Some (\<forall>r \<in> set (regions st). Region_isComplete h i r = Some True))) \<and>
   (lookup (machineStore h) m = Some sm \<longrightarrow>
      (StateMachine_isComplete h i m = Some True \<longleftrightarrow>
         (\<forall>r \<in> set (sm_regions sm). Region_isComplete h i r = Some True)) \<and>
      ((\<forall>r \<in> set (sm_regions sm). Region_isComplete h i r \<noteq> None) \<longrightarrow>
         StateMachine_isComplete h i m =
           Some (\<forall>r \<in> set (sm_regions sm). Region_isComplete h i r = Some True)))"
proof (intro conjI impI)
  assume "lookup (instanceStore h) i = Some di \<and> lookup (regionStore h) r = Some rg"
  then have gc: "getCurrent h i r = Some (activeStateConfiguration di (r_qualifiedName rg))"
    by (simp add: getCurrent_def)
  { assume "activeStateConfiguration di (r_qualifiedName rg) = None"
    with gc show "Region_isComplete h i r = Some False"
      by (simp add: Region_isComplete_def) }
  show "\<forall>s vx st. activeStateConfiguration di (r_qualifiedName rg) = Some s \<and>
         lookup (vertexStore h) s = Some vx \<and> v_class vx = StateC st \<longrightarrow>
         State_isFinal h s = Some (outgoing vx = []) \<and>
         Region_isComplete h i r = Some (outgoing vx = [])"
    using gc by (auto simp: Region_isComplete_def State_isFinal_def)
next
  assume st: "getState h s = Some st"
  then show "State_isComplete h i s = Some True \<longleftrightarrow>
         (\<forall>r \<in> set (regions st). Region_isComplete h i r = Some True)"
    by (simp add: State_isComplete_def every_True)
  { assume "State_isSimple h s = Some True"
    with st show "State_isComplete h i s = Some True"
      by (simp add: State_isComplete_def State_isSimple_def) }
  { assume "\<forall>r \<in> set (regions st). Region_isComplete h i r \<noteq> None"
    with st show "State_isComplete h i s = Some (\<forall>r \<in> set (regions st). Region_isComplete h i r = Some True)"
      by (simp add: State_isComplete_def every_value) }
next
  assume sm: "lookup (machineStore h) m = Some sm"
  then show "StateMachine_isComplete h i m = Some True \<longleftrightarrow>
         (\<forall>r \<in> set (sm_regions sm). Region_isComplete h i r = Some True)"
    by (simp add: StateMachine_isComplete_def every_True)
  { assume "\<forall>r \<in> set (sm_regions sm). Region_isComplete h i r \<noteq> None"
    with sm show "StateMachine_isComplete h i m =
           Some (\<forall>r \<in> set (sm_regions sm). Region_isComplete h i r = Some True)"
      by (simp add: StateMachine_isComplete_def every_value) }
qed

theorem isComplete_characterised_witness:
  "lookup (instanceStore exampleHeap) 0 = Some (instanceStore exampleHeap ! 0) \<and>
   lookup (regionStore exampleHeap) 1 = Some (regionStore exampleHeap ! 1) \<and>
   activeStateConfiguration (instanceStore exampleHeap ! 0)
     (r_qualifiedName (regionStore exampleHeap ! 1)) = Some 3 \<and>
   lookup (vertexStore exampleHeap) 3 = Some (vertexStore exampleHeap ! 3) \<and>
   v_class (vertexStore exampleHeap ! 3) =
     StateC \<lparr>regions = [], defaultRegion = None, entryBehavior = [], exitBehavior = []\<rparr> \<and>
   Region_isComplete exampleHeap 0 1 = Some True \<and>
   getState exampleHeap 0 =
     Some \<lparr>regions = [1], defaultRegion = Some 1, entryBehavior = [], exitBehavior = []\<rparr> \<and>
   State_isComplete exampleHeap 0 0 = Some True \<and>
   lookup (machineStore exampleHeap) 0 = Some (machineStore exampleHeap ! 0) \<and>
   StateMachine_isComplete exampleHeap 0 0 = Some True"
proof -
  let ?di = "instanceStore exampleHeap ! 0"
  let ?rg = "regionStore exampleHeap ! 1"
  let ?st = "\<lparr>regions = [1], defaultRegion = Some 1, entryBehavior = [], exitBehavior = []\<rparr>"
  let ?sm = "machineStore exampleHeap ! 0"
  note inst = isComplete_characterised[of exampleHeap 0 ?di 1 ?rg 0 ?st 0 ?sm]
  have a: "lookup (instanceStore exampleHeap) 0 = Some ?di" "lookup (regionStore exampleHeap) 1 = Some ?rg"
    "lookup (vertexStore exampleHeap) 3 = Some (vertexStore exampleHeap ! 3)"
    "lookup (machineStore exampleHeap) 0 = Some ?sm"
    by (simp_all add: lookup_def exampleHeap_def)
  have b: "activeStateConfiguration ?di (r_qualifiedName ?rg) = Some 3"
    by (simp add: exampleHeap_def)
  have c: "v_class (vertexStore exampleHeap ! 3) =
     StateC \<lparr>regions = [], defaultRegion = None, entryBehavior = [], exitBehavior = []\<rparr>"
    "outgoing (vertexStore exampleHeap ! 3) = []"
    by (simp_all add: exampleHeap_def)
  have d: "getState exampleHeap 0 = Some ?st"
    by (simp add: getState_def lookup_def exampleHeap_def)
  have r1: "Region_isComplete exampleHeap 0 1 = Some True"
    using inst a b c by simp
  have s0: "State_isComplete exampleHeap 0 0 = Some True"
    using inst d r1 by simp
  have r0: "Region_isComplete exampleHeap 0 0 = Some True"
    by (simp add: Region_isComplete_def getCurrent_def State_isFinal_def lookup_def exampleHeap_def)
  have m0: "StateMachine_isComplete exampleHeap 0 0 = Some True"
    using inst a(4) r0 by (simp add: exampleHeap_def)
  show ?thesis using a b c d r1 s0 m0 by simp
qed

section \<open>Evaluating a message at a vertex\<close>

lemma traverseLoop_fold:
  "i \<le> length (traverse tr) \<Longrightarrow> l = length (traverse tr) \<Longrightarrow>
   traverseLoop tr msg inst i l w = fold (\<lambda>a. a msg inst False) (drop i (traverse tr)) w"
proof (induction tr msg inst i l w rule: traverseLoop.induct)
  case (1 tr msg inst i l w)
  show ?case
  proof (cases "i < l")
    case True
    with 1 have "traverseLoop tr msg inst i l w =
        fold (\<lambda>a. a msg inst False) (drop (i + 1) (traverse tr)) ((traverse tr ! i) msg inst False w)"
      by simp
    also have "\<dots> = fold (\<lambda>a. a msg inst False) (drop i (traverse tr)) w"
      using True 1(3) by (simp add: Cons_nth_drop_Suc[symmetric])
    finally show ?thesis .
  next
    case False
    with 1 show ?thesis by simp
  qed
qed

lemma Vertex_evaluate_base: "Vertex_evaluate Vertex_select v msg inst w = (False, w)"
  by (simp add: Vertex_evaluate_def Vertex_select_def)

text \<open>
  Claim C8: when \<^verbatim>\<open>select\<close> finds no transition for the message, \<^verbatim>\<open>evaluate\<close> returns
  false and runs no traversal action (the state is as \<^verbatim>\<open>select\<close> left it); when a
  transition is selected, \<^verbatim>\<open>evaluate\<close> runs the traversal actions of that transition, each
  once and in the order of the array, on the message, the instance and \<^verbatim>\<open>false\<close>, and
  returns true.
\<close>

theorem Vertex_evaluate_result:
  "(select v msg inst w = (None, w1) \<longrightarrow>
      Vertex_evaluate select v msg inst w = (False, w1)) \<and>
   (select v msg inst w = (Some tr, w1) \<longrightarrow>
      Vertex_evaluate select v msg inst w =
        (True, fold (\<lambda>action. action msg inst False) (traverse tr) w1))"
  by (simp add: Vertex_evaluate_def traverseLoop_fold del: traverseLoop.simps)

theorem Vertex_evaluate_result_witness:
  "exampleSelect () (Primitive ''stop'') () [] = (None, []) \<and>
   Vertex_evaluate exampleSelect () (Primitive ''stop'') () [] = (False, []) \<and>
   exampleSelect () (Primitive ''go'') () [] =
     (Some \<lparr>traverse = [\<lambda>m i d w. w @ [1], \<lambda>m i d w. w @ [if d then 3 else 2]]\<rparr>, []) \<and>
   Vertex_evaluate exampleSelect () (Primitive ''go'') () [] = (True, [1, 2])"
proof -
  have n: "exampleSelect () (Primitive ''stop'') () [] = (None, [])"
    by (simp add: exampleSelect_def)
  have s: "exampleSelect () (Primitive ''go'') () [] =
     (Some \<lparr>traverse = [\<lambda>m i d w. w @ [1], \<lambda>m i d w. w @ [if d then 3 else 2]]\<rparr>, [])"
    by (simp add: exampleSelect_def)
  from Vertex_evaluate_result[where select = exampleSelect and v = "()" and msg = "Primitive ''stop''"
      and inst = "()" and w = "[]" and ?w1.0 = "[]"] n
  have "Vertex_evaluate exampleSelect () (Primitive ''stop'') () [] = (False, [])" by simp
  moreover
  from Vertex_evaluate_result[where select = exampleSelect and v = "()" and msg = "Primitive ''go''"
      and inst = "()" and w = "[]" and ?w1.0 = "[]"
      and tr = "\<lparr>traverse = [\<lambda>m i d w. w @ [1], \<lambda>m i d w. w @ [if d then 3 else 2]]\<rparr>"] s
  have "Vertex_evaluate exampleSelect () (Primitive ''go'') () [] = (True, [1, 2])" by simp
  ultimately show ?thesis using n s by simp
qed

section \<open>Structural mutation and the \<^verbatim>\<open>clean\<close> flag\<close>

lemma isOwner_ownerDefaultRegion: "isOwner h p \<Longrightarrow> \<exists>d. ownerDefaultRegion h p = Some d"
  by (cases p) (auto simp: isOwner_def ownerDefaultRegion_def lookup_def)

lemma getDefaultRegion_root:
  assumes ow: "isOwner h p" and root: "getRoot h (ownerElement p) = Some m"
    and rec: "\<And>r. ownerDefaultRegion h p = Some (Some r) \<Longrightarrow> getRoot h (RegionE r) = Some m"
  shows "\<exists>r h0. getDefaultRegion h p = Some (r, h0) \<and> getRoot h0 (RegionE r) = Some m"
proof -
  from isOwner_ownerDefaultRegion[OF ow] obtain d where d: "ownerDefaultRegion h p = Some d" by blast
  show ?thesis
  proof (cases d)
    case None
    with d have none: "ownerDefaultRegion h p = Some None" by simp
    from getDefaultRegion_create[OF root ow none] obtain h' where
      g: "getDefaultRegion h p = Some (length (regionStore h), h')" by blast
    from getDefaultRegion_D(2)[OF g] none obtain h1 where
      rn: "Region_new h defaultName p = Some (length (regionStore h), h1)" and sp: "sameParents h1 h'"
      by auto
    from Region_new_total[OF root ow, of defaultName] rn
    have "getRoot h1 (RegionE (length (regionStore h))) = Some m" by auto
    from getRoot_mono[OF this sp] g show ?thesis by blast
  next
    case (Some r)
    with d have "ownerDefaultRegion h p = Some (Some r)" by simp
    from getDefaultRegion_recorded[OF this] rec[OF this] show ?thesis by blast
  qed
qed

lemma parentRegion_root:
  assumes "parentRoot h parent m"
  shows "\<exists>rg h0. parentRegion h parent = Some (rg, h0) \<and> getRoot h0 (RegionE rg) = Some m"
proof (cases parent)
  case (InRegion r)
  with assms show ?thesis by (simp add: parentRoot_def parentRegion_def)
next
  case (InOwner ow)
  with assms have "isOwner h ow" "getRoot h (ownerElement ow) = Some m"
    "\<And>r. ownerDefaultRegion h ow = Some (Some r) \<Longrightarrow> getRoot h (RegionE r) = Some m"
    by (auto simp: parentRoot_def)
  from getDefaultRegion_root[OF this] InOwner show ?thesis
    by (simp add: parentRegion_def)
qed

lemma Vertex_new_root:
  assumes "parentRoot h parent m"
  shows "\<exists>v h'. Vertex_new h name parent cls = Some (v, h') \<and>
           getRoot h' (VertexE v) = Some m \<and> clean (machineStore h' ! m) = False"
proof -
  from parentRegion_root[OF assms] obtain rg h0 where
    pr: "parentRegion h parent = Some (rg, h0)" and root: "getRoot h0 (RegionE rg) = Some m" by blast
  define v where "v = length (vertexStore h0)"
  from Vertex_new_total[OF pr root, of name cls] obtain c qn where
    vn: "Vertex_new h name parent cls = Some (v,
             setClean (h0\<lparr>console := c,
                 vertexStore := vertexStore h0 @
                   [\<lparr>v_name = name, v_parent = rg, v_qualifiedName = qn,
                     outgoing = [], incoming = [], v_class = cls\<rparr>],
                 regionStore := (regionStore h0)
                   [rg := (regionStore h0 ! rg)\<lparr>vertices := vertices (regionStore h0 ! rg) @ [v]\<rparr>]\<rparr>)
               m False)" (is "_ = Some (v, setClean ?h3 m False)")
    unfolding v_def by blast
  have sp: "sameParents h0 ?h3"
    by (auto simp: sameParents_def nth_append nth_update_any)
  have "lookup (vertexStore ?h3) v = Some \<lparr>v_name = name, v_parent = rg, v_qualifiedName = qn,
                     outgoing = [], incoming = [], v_class = cls\<rparr>"
    by (simp add: lookup_def v_def)
  from getRoot_Vertex[OF this] getRoot_mono[OF root sp]
  have r3: "getRoot ?h3 (VertexE v) = Some m" by simp
  have "m < length (machineStore ?h3)" using getRoot_valid[OF r3] .
  then have "clean (machineStore (setClean ?h3 m False) ! m) = False"
    by (rule clean_setClean)
  with vn getRoot_setClean[OF r3, of m False] show ?thesis by blast
qed

text \<open>
  Claim C2: every structural mutation of the model resets the \<^verbatim>\<open>clean\<close> flag of the root
  machine to false: the construction of a region, of a vertex or of a transition (whose
  root is that of its source), and appending an entry, exit or effect behavior. So a
  machine whose flag is true has had no such mutation since the flag was set.

  Each operation returns, and in the store it returns the root of the new or changed
  element is the machine \<open>m\<close> and the flag of \<open>m\<close> is false.
\<close>

theorem structural_mutation_resets_clean:
  "(isOwner h ow \<and> getRoot h (ownerElement ow) = Some m \<longrightarrow>
      (\<exists>r h'. Region_new h name ow = Some (r, h') \<and>
         getRoot h' (RegionE r) = Some m \<and> clean (machineStore h' ! m) = False)) \<and>
   (parentRoot h parent m \<longrightarrow>
      (\<exists>v h'. Vertex_new h name parent cls = Some (v, h') \<and>
         getRoot h' (VertexE v) = Some m \<and> clean (machineStore h' ! m) = False)) \<and>
   (getRoot h (VertexE src) = Some m \<and> (\<forall>g. tgt = Some g \<longrightarrow> g < length (vertexStore h)) \<longrightarrow>
      (\<exists>t h'. Transition_new h src tgt knd = Some (t, h') \<and>
         getRoot h' (VertexE src) = Some m \<and> clean (machineStore h' ! m) = False)) \<and>
   (getState h s = Some st \<and> getRoot h (VertexE s) = Some m \<longrightarrow>
      (\<exists>h'. State_enter h s action = Some h' \<and>
         getRoot h' (VertexE s) = Some m \<and> clean (machineStore h' ! m) = False) \<and>
      (\<exists>h'. State_exit h s action = Some h' \<and>
         getRoot h' (VertexE s) = Some m \<and> clean (machineStore h' ! m) = False)) \<and>
   (lookup (transitionStore h) t = Some tr \<and> getRoot h (VertexE (source tr)) = Some m \<longrightarrow>
      (\<exists>h'. Transition_effect h t action = Some h' \<and>
         getRoot h' (VertexE (source tr)) = Some m \<and> clean (machineStore h' ! m) = False))"
proof (intro conjI impI)
  assume "isOwner h ow \<and> getRoot h (ownerElement ow) = Some m"
  then show "\<exists>r h'. Region_new h name ow = Some (r, h') \<and>
         getRoot h' (RegionE r) = Some m \<and> clean (machineStore h' ! m) = False"
    using Region_new_total[of h ow m name] by blast
next
  assume "parentRoot h parent m"
  then show "\<exists>v h'. Vertex_new h name parent cls = Some (v, h') \<and>
         getRoot h' (VertexE v) = Some m \<and> clean (machineStore h' ! m) = False"
    by (rule Vertex_new_root)
next
  assume a: "getRoot h (VertexE src) = Some m \<and> (\<forall>g. tgt = Some g \<longrightarrow> g < length (vertexStore h))"
  then obtain h' where tn: "Transition_new h src tgt knd = Some (length (transitionStore h), h')"
    using Transition_new_total[of h src m tgt knd] by blast
  from Transition_new_root[OF tn] a
  show "\<exists>t h'. Transition_new h src tgt knd = Some (t, h') \<and>
         getRoot h' (VertexE src) = Some m \<and> clean (machineStore h' ! m) = False"
    using tn by auto
next
  assume a: "getState h s = Some st \<and> getRoot h (VertexE s) = Some m"
  let ?h1 = "putState h s (st\<lparr>exitBehavior := exitBehavior st @ [action]\<rparr>)"
  have "sameParents h ?h1"
    by (auto simp: sameParents_def putState_def nth_update_any)
  with a have r1: "getRoot ?h1 (VertexE s) = Some m" using getRoot_mono by blast
  have "m < length (machineStore ?h1)" using getRoot_valid[OF r1] .
  then have c: "clean (machineStore (setClean ?h1 m False) ! m) = False" by (rule clean_setClean)
  from a have ex: "State_exit h s action = Some (setClean ?h1 m False)"
    using State_exit_total by blast
  with c getRoot_setClean[OF r1, of m False]
  show "\<exists>h'. State_exit h s action = Some h' \<and>
         getRoot h' (VertexE s) = Some m \<and> clean (machineStore h' ! m) = False" by blast
  with State_enter_exit[of h s action]
  show "\<exists>h'. State_enter h s action = Some h' \<and>
         getRoot h' (VertexE s) = Some m \<and> clean (machineStore h' ! m) = False" by simp
next
  assume a: "lookup (transitionStore h) t = Some tr \<and> getRoot h (VertexE (source tr)) = Some m"
  let ?h1 = "h\<lparr>transitionStore :=
                (transitionStore h)[t := tr\<lparr>effectBehavior := effectBehavior tr @ [action]\<rparr>]\<rparr>"
  have "sameParents h ?h1" by (simp add: sameParents_def)
  with a have r1: "getRoot ?h1 (VertexE (source tr)) = Some m" using getRoot_mono by blast
  have "m < length (machineStore ?h1)" using getRoot_valid[OF r1] .
  then have c: "clean (machineStore (setClean ?h1 m False) ! m) = False" by (rule clean_setClean)
  from a have "Transition_effect h t action = Some (setClean ?h1 m False)"
    using Transition_effect_total by blast
  with c getRoot_setClean[OF r1, of m False]
  show "\<exists>h'. Transition_effect h t action = Some h' \<and>
         getRoot h' (VertexE (source tr)) = Some m \<and> clean (machineStore h' ! m) = False" by blast
qed

theorem structural_mutation_resets_clean_witness:
  "clean (machineStore compiledHeap ! 0) = True \<and>
   isOwner compiledHeap (StateOwner 2) \<and>
   getRoot compiledHeap (ownerElement (StateOwner 2)) = Some 0 \<and>
   (\<exists>r h'. Region_new compiledHeap ''n'' (StateOwner 2) = Some (r, h') \<and>
      clean (machineStore h' ! 0) = False) \<and>
   parentRoot compiledHeap (InOwner (StateOwner 2)) 0 \<and>
   (\<exists>v h'. Vertex_new compiledHeap ''n'' (InOwner (StateOwner 2)) PlainVertex = Some (v, h') \<and>
      clean (machineStore h' ! 0) = False) \<and>
   getRoot compiledHeap (VertexE 2) = Some 0 \<and>
   (\<exists>t h'. Transition_new compiledHeap 2 (Some 0) Local = Some (t, h') \<and>
      clean (machineStore h' ! 0) = False) \<and>
   getState compiledHeap 2 =
     Some \<lparr>regions = [], defaultRegion = None, entryBehavior = [], exitBehavior = []\<rparr> \<and>
   (\<exists>h'. State_enter compiledHeap 2 7 = Some h' \<and> clean (machineStore h' ! 0) = False) \<and>
   (\<exists>h'. State_exit compiledHeap 2 7 = Some h' \<and> clean (machineStore h' ! 0) = False) \<and>
   lookup (transitionStore compiledHeap) 1 =
     Some \<lparr>source = 0, target = Some 2, kind = External, guard = GuardIsSource 1, effectBehavior = []\<rparr> \<and>
   (\<exists>h'. Transition_effect compiledHeap 1 7 = Some h' \<and> clean (machineStore h' ! 0) = False)"
proof -
  have tgt: "\<forall>g. Some (0::nat) = Some g \<longrightarrow> g < length (vertexStore compiledHeap)"
    by (simp add: compiledHeap_def exampleHeap_def)
  have own: "getRoot compiledHeap (ownerElement (StateOwner 2)) = Some 0"
    by (simp add: ownerElement_def compiled_facts)
  have src: "getRoot compiledHeap
      (VertexE (source \<lparr>source = 0, target = Some 2, kind = External, guard = GuardIsSource 1,
         effectBehavior = []\<rparr>)) = Some 0"
    by (simp add: compiled_facts)
  from structural_mutation_resets_clean[where h = compiledHeap and ow = "StateOwner 2" and m = 0
      and name = "''n''" and parent = "InOwner (StateOwner 2)" and cls = PlainVertex
      and src = 2 and tgt = "Some 0" and knd = Local and s = 2
      and st = "\<lparr>regions = [], defaultRegion = None, entryBehavior = [], exitBehavior = []\<rparr>"
      and action = 7 and t = 1
      and tr = "\<lparr>source = 0, target = Some 2, kind = External, guard = GuardIsSource 1,
         effectBehavior = []\<rparr>"]
    tgt own src compiled_facts
  show ?thesis by auto
qed

section \<open>Construction of a transition\<close>

lemma isState_not_isPseudoState: "isState h v \<Longrightarrow> \<not> isPseudoState h v"
  by (auto simp: isState_def isPseudoState_def getState_def split: option.splits VertexClass.splits)

text \<open>
  Claim C3: a newly constructed transition, before a guard is set on it, has a default
  guard: when the source is a pseudo state the guard is true of every message and
  instance; when the source is a state the guard is true exactly of the message that
  is the source vertex itself.
\<close>

theorem default_guard:
  assumes "getRoot h (VertexE src) = Some m"
    and "\<forall>g. tgt = Some g \<longrightarrow> g < length (vertexStore h)"
  shows "\<exists>t h' tr. Transition_new h src tgt knd = Some (t, h') \<and>
           lookup (transitionStore h') t = Some tr \<and>
           (isPseudoState h src \<longrightarrow>
              (\<forall>msg inst. Guard_call user h' (guard tr) msg inst = Some True)) \<and>
           (isState h src \<longrightarrow>
              (\<forall>msg inst. Guard_call user h' (guard tr) msg inst = Some (msg = VertexRef src)))"
proof -
  define t where "t = length (transitionStore h)"
  from Transition_new_total[OF assms, of knd] obtain h' where
    tn: "Transition_new h src tgt knd = Some (t, h')" unfolding t_def by blast
  define tr where "tr = \<lparr>source = src, target = tgt,
             kind = (case tgt of None \<Rightarrow> Internal | Some g \<Rightarrow> knd),
             guard = (if isPseudoState h src then GuardTrue else GuardIsSource t),
             effectBehavior = []\<rparr>"
  from Transition_new_D(2)[OF tn] have ts: "transitionStore h' = transitionStore h @ [tr]"
    unfolding tr_def .
  then have lk: "lookup (transitionStore h') t = Some tr"
    by (simp add: lookup_def t_def)
  have p: "isPseudoState h src \<longrightarrow> (\<forall>msg inst. Guard_call user h' (guard tr) msg inst = Some True)"
    by (simp add: tr_def Guard_call_def)
  have s: "isState h src \<longrightarrow>
      (\<forall>msg inst. Guard_call user h' (guard tr) msg inst = Some (msg = VertexRef src))"
  proof
    assume "isState h src"
    then have "guard tr = GuardIsSource t"
      using isState_not_isPseudoState by (simp add: tr_def)
    moreover have "source tr = src" by (simp add: tr_def)
    ultimately show "\<forall>msg inst. Guard_call user h' (guard tr) msg inst = Some (msg = VertexRef src)"
      using lk by (simp add: Guard_call_def)
  qed
  from tn lk p s show ?thesis by blast
qed

theorem default_guard_witness:
  "getRoot exampleHeap (VertexE 1) = Some 0 \<and> getRoot exampleHeap (VertexE 0) = Some 0 \<and>
   (2::nat) < length (vertexStore exampleHeap) \<and>
   isPseudoState exampleHeap 1 \<and> isState exampleHeap 0 \<and>
   (\<exists>t h' tr. Transition_new exampleHeap 1 (Some 2) External = Some (t, h') \<and>
      lookup (transitionStore h') t = Some tr \<and>
      Guard_call (\<lambda>f h msg inst. False) h' (guard tr) (Primitive ''e'') 0 = Some True) \<and>
   (\<exists>t h' tr. Transition_new exampleHeap 0 (Some 2) External = Some (t, h') \<and>
      lookup (transitionStore h') t = Some tr \<and>
      Guard_call (\<lambda>f h msg inst. True) h' (guard tr) (VertexRef 0) 0 = Some True \<and>
      Guard_call (\<lambda>f h msg inst. True) h' (guard tr) (VertexRef 2) 0 = Some False \<and>
      Guard_call (\<lambda>f h msg inst. True) h' (guard tr) (Primitive ''e'') 0 = Some False)"
proof -
  have tgt: "\<forall>g. Some (2::nat) = Some g \<longrightarrow> g < length (vertexStore exampleHeap)"
    by (simp add: exampleHeap_def)
  have cls: "isPseudoState exampleHeap 1" "isState exampleHeap 0"
    by (simp_all add: isPseudoState_def isState_def getState_def lookup_def exampleHeap_def)
  from default_guard[OF example_facts(2) tgt, of External "\<lambda>f h msg inst. False"] cls(1)
  have a: "\<exists>t h' tr. Transition_new exampleHeap 1 (Some 2) External = Some (t, h') \<and>
      lookup (transitionStore h') t = Some tr \<and>
      Guard_call (\<lambda>f h msg inst. False) h' (guard tr) (Primitive ''e'') 0 = Some True"
    by blast
  from default_guard[OF example_facts(1) tgt, of External "\<lambda>f h msg inst. True"] cls(2)
  obtain t h' tr where b: "Transition_new exampleHeap 0 (Some 2) External = Some (t, h')"
      "lookup (transitionStore h') t = Some tr"
      "\<forall>msg inst. Guard_call (\<lambda>f h msg inst. True) h' (guard tr) msg inst = Some (msg = VertexRef 0)"
    by blast
  from b(3) have "Guard_call (\<lambda>f h msg inst. True) h' (guard tr) (VertexRef 0) 0 = Some True"
      "Guard_call (\<lambda>f h msg inst. True) h' (guard tr) (VertexRef 2) 0 = Some False"
      "Guard_call (\<lambda>f h msg inst. True) h' (guard tr) (Primitive ''e'') 0 = Some False"
    by simp_all
  moreover have "(2::nat) < length (vertexStore exampleHeap)" using tgt by simp
  ultimately show ?thesis using b(1,2) a cls example_facts(1,2) by blast
qed

text \<open>
  Claim C4: a transition constructed without a target has the kind \<open>Internal\<close>, whatever
  kind the caller asked for; a transition constructed with a target keeps the kind asked
  for and is appended to the incoming list of the target.
\<close>

theorem Transition_kind_and_incoming:
  assumes "getRoot h (VertexE src) = Some m"
  shows "(\<exists>t h' tr. Transition_new h src None knd = Some (t, h') \<and>
            lookup (transitionStore h') t = Some tr \<and>
            target tr = None \<and> kind tr = Internal) \<and>
         (g < length (vertexStore h) \<longrightarrow>
            (\<exists>t h' tr. Transition_new h src (Some g) knd = Some (t, h') \<and>
               lookup (transitionStore h') t = Some tr \<and>
               target tr = Some g \<and> kind tr = knd \<and>
               incoming (vertexStore h' ! g) = incoming (vertexStore h ! g) @ [t]))"
proof (intro conjI impI)
  from Transition_new_total[OF assms, of None knd] obtain h' where
    tn: "Transition_new h src None knd = Some (length (transitionStore h), h')" by auto
  from Transition_new_D(2)[OF tn]
  have "lookup (transitionStore h') (length (transitionStore h)) =
      Some \<lparr>source = src, target = None, kind = Internal,
        guard = (if isPseudoState h src then GuardTrue else GuardIsSource (length (transitionStore h))),
        effectBehavior = []\<rparr>"
    by (simp add: lookup_def)
  with tn show "\<exists>t h' tr. Transition_new h src None knd = Some (t, h') \<and>
            lookup (transitionStore h') t = Some tr \<and> target tr = None \<and> kind tr = Internal"
    by fastforce
next
  assume g: "g < length (vertexStore h)"
  with Transition_new_total[OF assms, of "Some g" knd] obtain h' where
    tn: "Transition_new h src (Some g) knd = Some (length (transitionStore h), h')" by auto
  from Transition_new_D(2)[OF tn]
  have "lookup (transitionStore h') (length (transitionStore h)) =
      Some \<lparr>source = src, target = Some g, kind = knd,
        guard = (if isPseudoState h src then GuardTrue else GuardIsSource (length (transitionStore h))),
        effectBehavior = []\<rparr>"
    by (simp add: lookup_def)
  moreover from Transition_new_D(6)[OF tn]
  have "incoming (vertexStore h' ! g) = incoming (vertexStore h ! g) @ [length (transitionStore h)]"
    by simp
  ultimately show "\<exists>t h' tr. Transition_new h src (Some g) knd = Some (t, h') \<and>
               lookup (transitionStore h') t = Some tr \<and>
               target tr = Some g \<and> kind tr = knd \<and>
               incoming (vertexStore h' ! g) = incoming (vertexStore h ! g) @ [t]"
    using tn by fastforce
qed

theorem Transition_kind_and_incoming_witness:
  "getRoot exampleHeap (VertexE 2) = Some 0 \<and>
   (\<exists>t h' tr. Transition_new exampleHeap 2 None External = Some (t, h') \<and>
      lookup (transitionStore h') t = Some tr \<and> kind tr = Internal) \<and>
   (0::nat) < length (vertexStore exampleHeap) \<and>
   (\<exists>t h' tr. Transition_new exampleHeap 2 (Some 0) External = Some (t, h') \<and>
      lookup (transitionStore h') t = Some tr \<and> kind tr = External \<and>
      incoming (vertexStore h' ! 0) = [0, t])"
proof -
  have g: "(0::nat) < length (vertexStore exampleHeap)" by (simp add: exampleHeap_def)
  have i: "incoming (vertexStore exampleHeap ! 0) = [0]" by (simp add: exampleHeap_def)
  from Transition_kind_and_incoming[OF example_facts(3), of External 0] g i example_facts(3)
  show ?thesis by fastforce
qed

section \<open>The default region\<close>

lemma ownerDefaultRegion_Vertex_new:
  assumes "ownerDefaultRegion h0 ow = Some d"
  shows "ownerDefaultRegion
           (setClean (h0\<lparr>console := c, vertexStore := vertexStore h0 @ [x], regionStore := R\<rparr>) m b) ow
         = Some d"
  using assms
  by (cases ow)
     (auto simp: ownerDefaultRegion_def getState_def lookup_def setClean_def nth_append nth_update_any
        split: option.splits if_splits VertexClass.splits)

text \<open>
  Claim C10: \<^verbatim>\<open>getDefaultRegion\<close> of a state or a machine is lazy and idempotent. The
  first call creates a child region named \<open>default\<close> and records it, which clears the
  \<^verbatim>\<open>clean\<close> flag of the root; a later call returns the recorded region and creates
  nothing (the store is unchanged); and a vertex constructed with a state or a machine as
  its parent argument is placed in this default region.
\<close>

theorem getDefaultRegion_lazy_idempotent:
  "(isOwner h ow \<and> ownerDefaultRegion h ow = Some None \<and>
    getRoot h (ownerElement ow) = Some m \<longrightarrow>
      (\<exists>r h' rg. getDefaultRegion h ow = Some (r, h') \<and>
         r = length (regionStore h) \<and> regionStore h' = regionStore h @ [rg] \<and>
         r_name rg = defaultName \<and> r_parent rg = ow \<and>
         ownerRegions h' ow = map_option (\<lambda>rs. rs @ [r]) (ownerRegions h ow) \<and>
         ownerDefaultRegion h' ow = Some (Some r) \<and>
         clean (machineStore h' ! m) = False)) \<and>
   (getDefaultRegion h ow = Some (r, h') \<longrightarrow> getDefaultRegion h' ow = Some (r, h')) \<and>
   (parentRoot h (InOwner ow) m \<longrightarrow>
      (\<exists>r h0 v h1. getDefaultRegion h ow = Some (r, h0) \<and>
         Vertex_new h name (InOwner ow) cls = Some (v, h1) \<and>
         ownerDefaultRegion h1 ow = Some (Some r) \<and>
         v_parent (vertexStore h1 ! v) = r \<and>
         vertices (regionStore h1 ! r) = vertices (regionStore h0 ! r) @ [v]))"
proof (intro conjI impI)
  assume a: "isOwner h ow \<and> ownerDefaultRegion h ow = Some None \<and>
    getRoot h (ownerElement ow) = Some m"
  define r where "r = length (regionStore h)"
  from a getDefaultRegion_create[of h ow m] obtain h' where
    g: "getDefaultRegion h ow = Some (r, h')" unfolding r_def by blast
  from getDefaultRegion_D(2)[OF g] a obtain h1 where
    rn: "Region_new h defaultName ow = Some (r, h1)"
    and rs: "regionStore h' = regionStore h1"
    and cl: "\<forall>m. clean (machineStore h' ! m) = clean (machineStore h1 ! m)"
    and ors: "ownerRegions h' ow = ownerRegions h1 ow"
    by auto
  from Region_new_D(2)[OF rn] obtain rg where
    "regionStore h1 = regionStore h @ [rg]" "r_name rg = defaultName" "r_parent rg = ow"
    by auto
  moreover from Region_new_total[of h ow m defaultName] a rn
  have "clean (machineStore h1 ! m) = False" by (auto simp: r_def)
  ultimately show "\<exists>r h' rg. getDefaultRegion h ow = Some (r, h') \<and>
         r = length (regionStore h) \<and> regionStore h' = regionStore h @ [rg] \<and>
         r_name rg = defaultName \<and> r_parent rg = ow \<and>
         ownerRegions h' ow = map_option (\<lambda>rs. rs @ [r]) (ownerRegions h ow) \<and>
         ownerDefaultRegion h' ow = Some (Some r) \<and>
         clean (machineStore h' ! m) = False"
    using g rs cl ors Region_new_D(4)[OF rn] getDefaultRegion_D(1)[OF g] r_def by auto
next
  assume "getDefaultRegion h ow = Some (r, h')"
  from getDefaultRegion_D(1)[OF this] show "getDefaultRegion h' ow = Some (r, h')"
    by (rule getDefaultRegion_recorded)
next
  assume pr: "parentRoot h (InOwner ow) m"
  from parentRegion_root[OF this] obtain r h0 where
    g: "getDefaultRegion h ow = Some (r, h0)" and root: "getRoot h0 (RegionE r) = Some m"
    by (auto simp: parentRegion_def)
  have rv: "r < length (regionStore h0)" using getRoot_Region_valid[OF root] .
  from g have p: "parentRegion h (InOwner ow) = Some (r, h0)" by (simp add: parentRegion_def)
  define v where "v = length (vertexStore h0)"
  from Vertex_new_total[OF p root, of name cls] obtain c qn where
    vn: "Vertex_new h name (InOwner ow) cls = Some (v,
             setClean (h0\<lparr>console := c,
                 vertexStore := vertexStore h0 @
                   [\<lparr>v_name = name, v_parent = r, v_qualifiedName = qn,
                     outgoing = [], incoming = [], v_class = cls\<rparr>],
                 regionStore := (regionStore h0)
                   [r := (regionStore h0 ! r)\<lparr>vertices := vertices (regionStore h0 ! r) @ [v]\<rparr>]\<rparr>)
               m False)" (is "_ = Some (v, ?h1)")
    unfolding v_def by blast
  have "ownerDefaultRegion ?h1 ow = Some (Some r)"
    using getDefaultRegion_D(1)[OF g] by (rule ownerDefaultRegion_Vertex_new)
  moreover have "v_parent (vertexStore ?h1 ! v) = r"
    by (simp add: setClean_def v_def)
  moreover have "vertices (regionStore ?h1 ! r) = vertices (regionStore h0 ! r) @ [v]"
    using rv by (simp add: setClean_def)
  ultimately show "\<exists>r h0 v h1. getDefaultRegion h ow = Some (r, h0) \<and>
         Vertex_new h name (InOwner ow) cls = Some (v, h1) \<and>
         ownerDefaultRegion h1 ow = Some (Some r) \<and>
         v_parent (vertexStore h1 ! v) = r \<and>
         vertices (regionStore h1 ! r) = vertices (regionStore h0 ! r) @ [v]"
    using g vn by blast
qed

theorem getDefaultRegion_lazy_idempotent_witness:
  "clean (machineStore compiledHeap ! 0) = True \<and>
   isOwner compiledHeap (StateOwner 2) \<and>
   ownerDefaultRegion compiledHeap (StateOwner 2) = Some None \<and>
   getRoot compiledHeap (ownerElement (StateOwner 2)) = Some 0 \<and>
   (\<exists>h'. getDefaultRegion compiledHeap (StateOwner 2) = Some (2, h') \<and>
      length (regionStore h') = 3 \<and>
      r_name (regionStore h' ! 2) = ''default'' \<and>
      ownerRegions h' (StateOwner 2) = Some [2] \<and>
      ownerDefaultRegion h' (StateOwner 2) = Some (Some 2) \<and>
      clean (machineStore h' ! 0) = False \<and>
      getDefaultRegion h' (StateOwner 2) = Some (2, h')) \<and>
   parentRoot compiledHeap (InOwner (StateOwner 2)) 0 \<and>
   (\<exists>v h1. Vertex_new compiledHeap ''n'' (InOwner (StateOwner 2)) PlainVertex = Some (v, h1) \<and>
      ownerDefaultRegion h1 (StateOwner 2) = Some (Some 2) \<and>
      v_parent (vertexStore h1 ! v) = 2 \<and>
      vertices (regionStore h1 ! 2) = [v])"
proof -
  have own: "getRoot compiledHeap (ownerElement (StateOwner 2)) = Some 0"
    by (simp add: ownerElement_def compiled_facts)
  have none: "ownerDefaultRegion compiledHeap (StateOwner 2) = Some None"
    by (simp add: ownerDefaultRegion_def compiled_facts)
  have len: "length (regionStore compiledHeap) = 2"
    by (simp add: compiledHeap_def exampleHeap_def)
  have ors: "ownerRegions compiledHeap (StateOwner 2) = Some []"
    by (simp add: ownerRegions_def compiled_facts)
  note inst = getDefaultRegion_lazy_idempotent[where h = compiledHeap and ow = "StateOwner 2"
      and m = 0 and name = "''n''" and cls = PlainVertex]
  from inst[of 0 compiledHeap] compiled_facts(7) none own obtain h' rg where
    g: "getDefaultRegion compiledHeap (StateOwner 2) = Some (2, h')"
    and rs: "regionStore h' = regionStore compiledHeap @ [rg]" "r_name rg = defaultName"
    and o: "ownerRegions h' (StateOwner 2) = Some [2]"
       "ownerDefaultRegion h' (StateOwner 2) = Some (Some 2)"
       "clean (machineStore h' ! 0) = False"
    using len ors by auto
  from inst[of 2 h'] g have again: "getDefaultRegion h' (StateOwner 2) = Some (2, h')" by blast
  from rs len have "length (regionStore h') = 3" "r_name (regionStore h' ! 2) = ''default''"
    by (simp_all add: nth_append defaultName_def)
  with g o again have first:
    "\<exists>h'. getDefaultRegion compiledHeap (StateOwner 2) = Some (2, h') \<and>
      length (regionStore h') = 3 \<and>
      r_name (regionStore h' ! 2) = ''default'' \<and>
      ownerRegions h' (StateOwner 2) = Some [2] \<and>
      ownerDefaultRegion h' (StateOwner 2) = Some (Some 2) \<and>
      clean (machineStore h' ! 0) = False \<and>
      getDefaultRegion h' (StateOwner 2) = Some (2, h')" by blast
  from inst[of 0 compiledHeap] compiled_facts(8) g obtain v h1 where
    "Vertex_new compiledHeap ''n'' (InOwner (StateOwner 2)) PlainVertex = Some (v, h1)"
    "ownerDefaultRegion h1 (StateOwner 2) = Some (Some 2)"
    "v_parent (vertexStore h1 ! v) = 2"
    "vertices (regionStore h1 ! 2) = vertices (regionStore h' ! 2) @ [v]"
    by auto
  moreover from Region_new_D(2) getDefaultRegion_D(2)[OF g] none
  have "vertices (regionStore h' ! 2) = []"
    using len by (fastforce simp: nth_append)
  ultimately have second:
    "\<exists>v h1. Vertex_new compiledHeap ''n'' (InOwner (StateOwner 2)) PlainVertex = Some (v, h1) \<and>
      ownerDefaultRegion h1 (StateOwner 2) = Some (Some 2) \<and>
      v_parent (vertexStore h1 ! v) = 2 \<and>
      vertices (regionStore h1 ! 2) = [v]" by auto
  from first second compiled_facts(4,7,8) none own show ?thesis by blast
qed

section \<open>The dictionary instance\<close>

lemma Region_new_qualifiedName:
  assumes "Region_new h name p = Some (r, h')"
  shows "CHR ''.'' \<in> set (r_qualifiedName (regionStore h' ! r))"
  using Region_new_D(1,2)[OF assms] by (auto simp: namespaceSeparator_def)

text \<open>
  Claim C7, as stated, says that two structurally distinct models never collide in a
  dictionary instance. They do: the two models of \<open>collisionHeap\<close> are different machines
  with different vertices, the instance holds no state for the region of the second, and
  after \<^verbatim>\<open>setCurrent\<close> on the region of the first, \<^verbatim>\<open>getCurrent\<close> on the region of the
  second returns the state of the first model.
\<close>

theorem distinct_models_collide:
  "getRoot collisionHeap (RegionE 0) = Some 0 \<and>
   getRoot collisionHeap (RegionE 1) = Some 1 \<and>
   vertices (regionStore collisionHeap ! 0) = [0] \<and>
   vertices (regionStore collisionHeap ! 1) = [1, 2] \<and>
   getCurrent collisionHeap 0 1 = Some None \<and>
   getCurrentAfterSet collisionHeap 0 0 0 1 = Some (Some 0)"
  by (simp add: collisionHeap_def getRoot.simps lookup_def ownerElement_def getCurrent_def
      getCurrentAfterSet_def setCurrent_def)

lemma setCurrent_regionStore: "setCurrent h i r s = Some h' \<Longrightarrow> regionStore h' = regionStore h"
  by (auto simp: setCurrent_def split: Option.bind_splits)

lemma setCurrent_getCurrent:
  assumes "setCurrent h i r s = Some h'"
    and "lookup (regionStore h) r = Some rg" and "lookup (regionStore h) r' = Some rg'"
  shows "r_qualifiedName rg' = r_qualifiedName rg \<Longrightarrow> getCurrent h' i r' = Some (Some s)"
    and "r_qualifiedName rg' \<noteq> r_qualifiedName rg \<Longrightarrow> getCurrent h' i r' = getCurrent h i r'"
    and "j \<noteq> i \<Longrightarrow> getCurrent h' j r' = getCurrent h j r'"
  using assms
  by (auto simp: setCurrent_def getCurrent_def lookup_def nth_update_any
      split: Option.bind_splits if_splits)

lemma setCurrents_other_names:
  assumes "setCurrents h i calls = Some h1"
    and "lookup (regionStore h) r' = Some rg'"
    and "\<forall>(r, s) \<in> set calls. \<forall>rg. lookup (regionStore h) r = Some rg \<longrightarrow>
           r_qualifiedName rg \<noteq> r_qualifiedName rg'"
  shows "getCurrent h1 i r' = getCurrent h i r'"
  using assms
proof (induction calls arbitrary: h)
  case Nil
  then show ?case by simp
next
  case (Cons c calls)
  obtain r s where c: "c = (r, s)" by (cases c)
  with Cons.prems(1) obtain h' where sc: "setCurrent h i r s = Some h'"
    and rest: "setCurrents h' i calls = Some h1"
    by (auto split: option.splits)
  from sc obtain rg where rg: "lookup (regionStore h) r = Some rg"
    by (auto simp: setCurrent_def split: Option.bind_splits)
  with Cons.prems(3) c have ne: "r_qualifiedName rg' \<noteq> r_qualifiedName rg" by auto
  have rs: "regionStore h' = regionStore h" using sc by (rule setCurrent_regionStore)
  have "getCurrent h1 i r' = getCurrent h' i r'"
    using Cons.IH[OF rest] Cons.prems(2,3) rs by auto
  also have "\<dots> = getCurrent h i r'"
    using setCurrent_getCurrent(2)[OF sc rg Cons.prems(2) ne] .
  finally show ?case .
qed

text \<open>
  Claim C7, amended: the dictionary instance keys its entries by the qualified name of
  the region. After \<^verbatim>\<open>setCurrent(r, s)\<close>, \<^verbatim>\<open>getCurrent(r')\<close> returns \<open>s\<close> for every region
  \<open>r'\<close> whose qualified name is that of \<open>r\<close>, keeps its value for every region with
  another qualified name, and keeps its value in every other instance; \<^verbatim>\<open>getCurrent\<close>
  of a region whose qualified name was never set in a new instance returns none. Regions
  collide exactly when their qualified names are equal, whichever models they belong to.
\<close>

theorem DictionaryInstance_keyed_by_qualifiedName:
  "(lookup (instanceStore h) i = Some di \<and> lookup (regionStore h) r = Some rg \<and>
    lookup (regionStore h) r' = Some rg' \<longrightarrow>
      (\<exists>h'. setCurrent h i r s = Some h' \<and>
         (r_qualifiedName rg' = r_qualifiedName rg \<longrightarrow> getCurrent h' i r' = Some (Some s)) \<and>
         (r_qualifiedName rg' \<noteq> r_qualifiedName rg \<longrightarrow> getCurrent h' i r' = getCurrent h i r') \<and>
         (\<forall>j. j \<noteq> i \<longrightarrow> getCurrent h' j r' = getCurrent h j r'))) \<and>
   (DictionaryInstance_new h name = (i0, h0) \<and> setCurrents h0 i0 calls = Some h1 \<and>
    lookup (regionStore h) r' = Some rg' \<and>
    (\<forall>(r, s) \<in> set calls. \<forall>rg. lookup (regionStore h) r = Some rg \<longrightarrow>
       r_qualifiedName rg \<noteq> r_qualifiedName rg') \<longrightarrow>
      getCurrent h1 i0 r' = Some None)"
proof (intro conjI impI)
  assume a: "lookup (instanceStore h) i = Some di \<and> lookup (regionStore h) r = Some rg \<and>
    lookup (regionStore h) r' = Some rg'"
  then obtain h' where sc: "setCurrent h i r s = Some h'"
    by (auto simp: setCurrent_def)
  from a setCurrent_getCurrent[OF sc, of rg r' rg'] sc
  show "\<exists>h'. setCurrent h i r s = Some h' \<and>
         (r_qualifiedName rg' = r_qualifiedName rg \<longrightarrow> getCurrent h' i r' = Some (Some s)) \<and>
         (r_qualifiedName rg' \<noteq> r_qualifiedName rg \<longrightarrow> getCurrent h' i r' = getCurrent h i r') \<and>
         (\<forall>j. j \<noteq> i \<longrightarrow> getCurrent h' j r' = getCurrent h j r')"
    by auto
next
  assume a: "DictionaryInstance_new h name = (i0, h0) \<and> setCurrents h0 i0 calls = Some h1 \<and>
    lookup (regionStore h) r' = Some rg' \<and>
    (\<forall>(r, s) \<in> set calls. \<forall>rg. lookup (regionStore h) r = Some rg \<longrightarrow>
       r_qualifiedName rg \<noteq> r_qualifiedName rg')"
  then have rs: "regionStore h0 = regionStore h" and i0: "i0 = length (instanceStore h)"
    and is0: "instanceStore h0 = instanceStore h @ [\<lparr>di_name = name, activeStateConfiguration = Map.empty\<rparr>]"
    by (auto simp: DictionaryInstance_new_def)
  from a rs have "getCurrent h1 i0 r' = getCurrent h0 i0 r'"
    using setCurrents_other_names[of h0 i0 calls h1 r' rg'] by auto
  also have "\<dots> = Some None"
    using a rs i0 is0 by (simp add: getCurrent_def lookup_def)
  finally show "getCurrent h1 i0 r' = Some None" .
qed

theorem DictionaryInstance_keyed_by_qualifiedName_witness:
  "lookup (instanceStore collisionHeap) 0 = Some (instanceStore collisionHeap ! 0) \<and>
   lookup (regionStore collisionHeap) 0 = Some (regionStore collisionHeap ! 0) \<and>
   lookup (regionStore collisionHeap) 1 = Some (regionStore collisionHeap ! 1) \<and>
   r_qualifiedName (regionStore collisionHeap ! 1) = r_qualifiedName (regionStore collisionHeap ! 0) \<and>
   (\<exists>h'. setCurrent collisionHeap 0 0 0 = Some h' \<and> getCurrent h' 0 1 = Some (Some 0)) \<and>
   lookup (instanceStore exampleHeap) 0 = Some (instanceStore exampleHeap ! 0) \<and>
   lookup (regionStore exampleHeap) 0 = Some (regionStore exampleHeap ! 0) \<and>
   lookup (regionStore exampleHeap) 1 = Some (regionStore exampleHeap ! 1) \<and>
   r_qualifiedName (regionStore exampleHeap ! 1) \<noteq> r_qualifiedName (regionStore exampleHeap ! 0) \<and>
   (\<exists>h'. setCurrent exampleHeap 0 0 0 = Some h' \<and> getCurrent h' 0 1 = Some (Some 3)) \<and>
   DictionaryInstance_new exampleHeap ''y'' = (1, snd (DictionaryInstance_new exampleHeap ''y'')) \<and>
   (\<exists>h1. setCurrents (snd (DictionaryInstance_new exampleHeap ''y'')) 1 [(0, 0)] = Some h1 \<and>
      getCurrent h1 1 1 = Some None)"
proof -
  have c: "lookup (instanceStore collisionHeap) 0 = Some (instanceStore collisionHeap ! 0)"
    "lookup (regionStore collisionHeap) 0 = Some (regionStore collisionHeap ! 0)"
    "lookup (regionStore collisionHeap) 1 = Some (regionStore collisionHeap ! 1)"
    "r_qualifiedName (regionStore collisionHeap ! 1) = r_qualifiedName (regionStore collisionHeap ! 0)"
    by (simp_all add: collisionHeap_def lookup_def)
  have e: "lookup (instanceStore exampleHeap) 0 = Some (instanceStore exampleHeap ! 0)"
    "lookup (regionStore exampleHeap) 0 = Some (regionStore exampleHeap ! 0)"
    "lookup (regionStore exampleHeap) 1 = Some (regionStore exampleHeap ! 1)"
    "r_qualifiedName (regionStore exampleHeap ! 1) \<noteq> r_qualifiedName (regionStore exampleHeap ! 0)"
    by (simp_all add: exampleHeap_def lookup_def)
  have cur: "getCurrent exampleHeap 0 1 = Some (Some 3)"
    by (simp add: getCurrent_def lookup_def exampleHeap_def)
  let ?y = "snd (DictionaryInstance_new exampleHeap ''y'')"
  have y: "DictionaryInstance_new exampleHeap ''y'' = (1, ?y)"
    by (simp add: DictionaryInstance_new_def exampleHeap_def)
  have calls: "setCurrents ?y 1 [(0, 0)] \<noteq> None"
    by (simp add: DictionaryInstance_new_def exampleHeap_def setCurrent_def lookup_def)
  then obtain h1 where h1: "setCurrents ?y 1 [(0, 0)] = Some h1" by blast
  have names: "\<forall>(r, s) \<in> set [(0::nat, 0::nat)]. \<forall>rg. lookup (regionStore exampleHeap) r = Some rg \<longrightarrow>
       r_qualifiedName rg \<noteq> r_qualifiedName (regionStore exampleHeap ! 1)"
    by (simp add: exampleHeap_def lookup_def)
  from DictionaryInstance_keyed_by_qualifiedName[where h = collisionHeap and i = 0
      and di = "instanceStore collisionHeap ! 0" and r = 0 and rg = "regionStore collisionHeap ! 0"
      and r' = 1 and rg' = "regionStore collisionHeap ! 1" and s = 0, THEN conjunct1] c
  have p1: "\<exists>h'. setCurrent collisionHeap 0 0 0 = Some h' \<and> getCurrent h' 0 1 = Some (Some 0)"
    by auto
  from DictionaryInstance_keyed_by_qualifiedName[where h = exampleHeap and i = 0
      and di = "instanceStore exampleHeap ! 0" and r = 0 and rg = "regionStore exampleHeap ! 0"
      and r' = 1 and rg' = "regionStore exampleHeap ! 1" and s = 0
      and name = "''y''" and ?i0.0 = 1 and ?h0.0 = ?y and calls = "[(0, 0)]" and ?h1.0 = h1] e cur
    y h1 names
  have p2: "\<exists>h'. setCurrent exampleHeap 0 0 0 = Some h' \<and> getCurrent h' 0 1 = Some (Some 3)"
    and p3: "getCurrent h1 1 1 = Some None"
    by auto
  from p3 h1 have p3': "\<exists>h1. setCurrents ?y 1 [(0, 0)] = Some h1 \<and> getCurrent h1 1 1 = Some None"
    by blast
  from c e p1 p2 y p3' show ?thesis by blast
qed

section \<open>Compiling the model\<close>

lemma sameGraph_console [simp]:
  "sameGraph (h\<lparr>console := c\<rparr>) k = sameGraph h k" "sameGraph h (k\<lparr>console := c\<rparr>) = sameGraph h k"
  by (simp_all add: sameGraph_def)

lemma quietD:
  assumes "quiet f" "sameGraph h k" "f h x = Some h'"
  obtains c c' where "h' = h\<lparr>console := c\<rparr>" "f k x = Some (k\<lparr>console := c'\<rparr>)"
  using assms unfolding quiet_def by blast

lemma forEach_quiet:
  assumes "quiet f"
  shows "sameGraph h k \<Longrightarrow> forEach f xs h = Some h' \<Longrightarrow>
         (\<exists>c. h' = h\<lparr>console := c\<rparr>) \<and> (\<exists>c. forEach f xs k = Some (k\<lparr>console := c\<rparr>))"
proof (induction xs arbitrary: h k)
  case Nil
  then show ?case by (auto intro: exI[of _ "console h"] exI[of _ "console k"])
next
  case (Cons x xs)
  from Cons.prems(2) obtain h1 where s1: "f h x = Some h1" and s2: "forEach f xs h1 = Some h'"
    by (auto split: option.splits)
  from quietD[OF assms Cons.prems(1) s1] obtain c c' where
    h1: "h1 = h\<lparr>console := c\<rparr>" and k1: "f k x = Some (k\<lparr>console := c'\<rparr>)" by blast
  have "sameGraph h1 (k\<lparr>console := c'\<rparr>)" using Cons.prems(1) h1 by simp
  from Cons.IH[OF this s2] obtain d d' where
    "h' = h1\<lparr>console := d\<rparr>" "forEach f xs (k\<lparr>console := c'\<rparr>) = Some (k\<lparr>console := c', console := d'\<rparr>)"
    by auto
  with h1 k1 show ?case by auto
qed

lemma lookup_map: "lookup (map f xs) i = map_option f (lookup xs i)"
  by (simp add: lookup_def)

lemma toString_sameGraph: "sameGraph h k \<Longrightarrow> toString h e = toString k e"
  by (cases e) (simp_all add: toString_def sameGraph_def lookup_map[symmetric])

lemma Transition_toString_sameGraph:
  "sameGraph h k \<Longrightarrow> Transition_toString h t = Transition_toString k t"
  using toString_sameGraph[of h k]
  by (auto simp: Transition_toString_def sameGraph_def
      split: Option.bind_split option.splits)

lemma visitElement_quiet: "quiet visitElement"
  unfolding quiet_def
  by (auto simp: visitElement_def log_def toString_sameGraph split: Option.bind_splits)

lemma visitTransition_quiet: "quiet visitTransition"
  unfolding quiet_def
proof (intro allI impI)
  fix h k :: heap and x h'
  assume sg: "sameGraph h k" and v: "visitTransition h x = Some h'"
  from v obtain s where s: "Transition_toString h x = Some s" and h': "h' = log h (''visiting '' @ s)"
    by (auto simp: visitTransition_def split: Option.bind_splits)
  from s Transition_toString_sameGraph[OF sg] have "Transition_toString k x = Some s" by simp
  then have "visitTransition k x = Some (log k (''visiting '' @ s))"
    by (simp add: visitTransition_def)
  with h' show "(\<exists>c. h' = h\<lparr>console := c\<rparr>) \<and> (\<exists>c. visitTransition k x = Some (k\<lparr>console := c\<rparr>))"
    by (auto simp: log_def)
qed

lemma visitVertex_quiet: "quiet visitVertex"
  unfolding quiet_def
proof (intro allI impI)
  fix h k :: heap and v h'
  assume sg: "sameGraph h k" and vv: "visitVertex h v = Some h'"
  from vv obtain vx h1 where vx: "lookup (vertexStore h) v = Some vx"
    and f: "forEach visitTransition (outgoing vx) h = Some h1"
    and e: "visitElement h1 (VertexE v) = Some h'"
    by (auto simp: visitVertex_def split: Option.bind_splits)
  from forEach_quiet[OF visitTransition_quiet sg f] obtain c c' where
    h1: "h1 = h\<lparr>console := c\<rparr>"
    and k1: "forEach visitTransition (outgoing vx) k = Some (k\<lparr>console := c'\<rparr>)" by blast
  have "sameGraph h1 (k\<lparr>console := c'\<rparr>)" using sg h1 by simp
  from quietD[OF visitElement_quiet this e] obtain d d' where
    "h' = h1\<lparr>console := d\<rparr>"
    "visitElement (k\<lparr>console := c'\<rparr>) (VertexE v) = Some (k\<lparr>console := c', console := d'\<rparr>)"
    by blast
  moreover from vx sg have "lookup (vertexStore k) v = Some vx" by (simp add: sameGraph_def)
  ultimately show "(\<exists>c. h' = h\<lparr>console := c\<rparr>) \<and> (\<exists>c. visitVertex k v = Some (k\<lparr>console := c\<rparr>))"
    using h1 k1 by (auto simp: visitVertex_def)
qed

lemma accept_quiet: "quiet (Region_accept n) \<and> quiet (Vertex_accept n)"
proof (induction n)
  case 0
  show ?case by (simp add: quiet_def)
next
  case (Suc n)
  then have qr: "quiet (Region_accept n)" and qv: "quiet (Vertex_accept n)" by simp_all
  have "quiet (Region_accept (Suc n))"
    unfolding quiet_def
  proof (intro allI impI)
    fix h k :: heap and r h'
    assume sg: "sameGraph h k" and a: "Region_accept (Suc n) h r = Some h'"
    from a obtain rg h1 where rg: "lookup (regionStore h) r = Some rg"
      and f: "forEach (Vertex_accept n) (vertices rg) h = Some h1"
      and e: "visitElement h1 (RegionE r) = Some h'"
      by (auto split: option.splits)
    from forEach_quiet[OF qv sg f] obtain c c' where
      h1: "h1 = h\<lparr>console := c\<rparr>"
      and k1: "forEach (Vertex_accept n) (vertices rg) k = Some (k\<lparr>console := c'\<rparr>)" by blast
    have "sameGraph h1 (k\<lparr>console := c'\<rparr>)" using sg h1 by simp
    from quietD[OF visitElement_quiet this e] obtain d d' where
      "h' = h1\<lparr>console := d\<rparr>"
      "visitElement (k\<lparr>console := c'\<rparr>) (RegionE r) = Some (k\<lparr>console := c', console := d'\<rparr>)"
      by blast
    moreover from rg sg have "lookup (regionStore k) r = Some rg" by (simp add: sameGraph_def)
    ultimately show "(\<exists>c. h' = h\<lparr>console := c\<rparr>) \<and>
        (\<exists>c. Region_accept (Suc n) k r = Some (k\<lparr>console := c\<rparr>))"
      using h1 k1 by auto
  qed
  moreover have "quiet (Vertex_accept (Suc n))"
    unfolding quiet_def
  proof (intro allI impI)
    fix h k :: heap and v h'
    assume sg: "sameGraph h k" and a: "Vertex_accept (Suc n) h v = Some h'"
    from a obtain vx where vx: "lookup (vertexStore h) v = Some vx"
      by (auto split: option.splits)
    with sg have vxk: "lookup (vertexStore k) v = Some vx" by (simp add: sameGraph_def)
    show "(\<exists>c. h' = h\<lparr>console := c\<rparr>) \<and>
        (\<exists>c. Vertex_accept (Suc n) k v = Some (k\<lparr>console := c\<rparr>))"
    proof (cases "v_class vx")
      case PlainVertex
      with a vx have "visitVertex h v = Some h'" by simp
      from quietD[OF visitVertex_quiet sg this] PlainVertex vxk show ?thesis by auto
    next
      case (PseudoStateC kd)
      with a vx have "visitVertex h v = Some h'" by simp
      from quietD[OF visitVertex_quiet sg this] PseudoStateC vxk show ?thesis by auto
    next
      case (StateC st)
      with a vx obtain h1 where f: "forEach (Region_accept n) (regions st) h = Some h1"
        and e: "visitVertex h1 v = Some h'"
        by (auto split: option.splits)
      from forEach_quiet[OF qr sg f] obtain c c' where
        h1: "h1 = h\<lparr>console := c\<rparr>"
        and k1: "forEach (Region_accept n) (regions st) k = Some (k\<lparr>console := c'\<rparr>)" by blast
      have "sameGraph h1 (k\<lparr>console := c'\<rparr>)" using sg h1 by simp
      from quietD[OF visitVertex_quiet this e] obtain d d' where
        "h' = h1\<lparr>console := d\<rparr>"
        "visitVertex (k\<lparr>console := c'\<rparr>) v = Some (k\<lparr>console := c', console := d'\<rparr>)"
        by blast
      with h1 k1 StateC vxk show ?thesis by auto
    qed
  qed
  ultimately show ?case by (rule conjI)
qed

lemma StateMachine_accept_quiet:
  assumes sg: "sameGraph h k" and a: "StateMachine_accept n h m = Some h'"
  shows "(\<exists>c. h' = h\<lparr>console := c\<rparr>) \<and> (\<exists>c. StateMachine_accept n k m = Some (k\<lparr>console := c\<rparr>))"
proof -
  from a obtain sm h1 where sm: "lookup (machineStore h) m = Some sm"
    and f: "forEach (Region_accept n) (sm_regions sm) h = Some h1"
    and e: "visitElement h1 (MachineE m) = Some h'"
    by (auto simp: StateMachine_accept_def split: Option.bind_splits)
  from sg have "map sm_regions (machineStore h) = map sm_regions (machineStore k)"
    by (simp add: sameGraph_def)
  then have "lookup (map sm_regions (machineStore k)) m = lookup (map sm_regions (machineStore h)) m"
    by simp
  also have "\<dots> = Some (sm_regions sm)" using sm by (simp add: lookup_map)
  finally have "lookup (map sm_regions (machineStore k)) m = Some (sm_regions sm)" .
  then obtain smk where smk: "lookup (machineStore k) m = Some smk" "sm_regions smk = sm_regions sm"
    by (auto simp: lookup_map)
  from accept_quiet have qr: "quiet (Region_accept n)" by simp
  from forEach_quiet[OF qr sg f] obtain c c' where
    h1: "h1 = h\<lparr>console := c\<rparr>"
    and k1: "forEach (Region_accept n) (sm_regions sm) k = Some (k\<lparr>console := c'\<rparr>)" by blast
  have "sameGraph h1 (k\<lparr>console := c'\<rparr>)" using sg h1 by simp
  from quietD[OF visitElement_quiet this e] obtain d d' where
    "h' = h1\<lparr>console := d\<rparr>"
    "visitElement (k\<lparr>console := c'\<rparr>) (MachineE m) = Some (k\<lparr>console := c', console := d'\<rparr>)"
    by blast
  with h1 k1 smk show ?thesis by (auto simp: StateMachine_accept_def)
qed

lemma clean_update_id: "clean sm \<Longrightarrow> sm\<lparr>clean := True\<rparr> = sm"
  by (cases sm) simp

lemma map_update_same: "f (g (xs ! i)) = f (xs ! i) \<Longrightarrow> map f (xs[i := g (xs ! i)]) = map f xs"
  by (simp add: list_eq_iff_nth_eq nth_update_any)

lemma initialise_instance_clean:
  assumes "lookup (machineStore k) m = Some sm" and "clean sm"
  shows "StateMachine_initialise n run k m (Some i) auto =
           (case lookup (instanceStore k) i of
              None \<Rightarrow> None
            | Some di \<Rightarrow> invoke run (onInitialise sm) Undefined i False
                           (log k (''initialise '' @ di_name di)))"
  using assms by (simp split: option.splits)

text \<open>
  Claim C6: compiling the model is idempotent. When \<^verbatim>\<open>initialise()\<close> has returned, a
  second \<^verbatim>\<open>initialise()\<close> with no structural mutation in between returns too and mutates
  nothing in the graph: the store it returns is the store it was given, apart from the
  lines the walk prints on the console. The first call itself changes the \<^verbatim>\<open>clean\<close>
  flag and the console only. Once the flag is true, \<^verbatim>\<open>initialise(instance)\<close> makes no
  compile pass: it prints its line and invokes the initialise actions.
\<close>

theorem compile_idempotent:
  assumes "StateMachine_initialise n run h m None a = Some h1"
  shows "h1 = (setClean h m True)\<lparr>console := console h1\<rparr> \<and>
         clean (machineStore h1 ! m) \<and>
         (\<exists>h2. StateMachine_initialise n run h1 m None a' = Some h2 \<and>
            h2 = h1\<lparr>console := console h2\<rparr>) \<and>
         StateMachine_initialise n run h1 m (Some i) True =
           (case lookup (instanceStore h1) i of
              None \<Rightarrow> None
            | Some di \<Rightarrow> invoke run (onInitialise (machineStore h1 ! m)) Undefined i False
                           (log h1 (''initialise '' @ di_name di)))"
proof -
  from assms obtain sm hA where sm: "lookup (machineStore h) m = Some sm"
    and acc: "StateMachine_accept n (log h (''initialise '' @ sm_name sm)) m = Some hA"
    and h1: "h1 = setClean hA m True"
    by (auto split: Option.bind_splits)
  have m: "m < length (machineStore h)" and smv: "machineStore h ! m = sm"
    using sm by (auto simp: lookup_def split: if_splits)
  let ?l = "log h (''initialise '' @ sm_name sm)"
  let ?l1 = "log h1 (''initialise '' @ sm_name sm)"
  from StateMachine_accept_quiet[OF _ acc, of ?l] obtain c where hA: "hA = h\<lparr>console := c\<rparr>"
    by (auto simp: sameGraph_def log_def)
  have h1': "h1 = (setClean h m True)\<lparr>console := c\<rparr>"
    unfolding h1 hA by (simp add: setClean_def)
  have first: "h1 = (setClean h m True)\<lparr>console := console h1\<rparr>"
    by (subst (2) h1') (simp add: h1')
  have cl: "clean (machineStore h1 ! m)"
    using m by (simp add: h1' setClean_def)
  have ms1: "machineStore h1 = (machineStore h)[m := (machineStore h ! m)\<lparr>clean := True\<rparr>]"
    by (simp add: h1' setClean_def)
  have sm1: "lookup (machineStore h1) m = Some (sm\<lparr>clean := True\<rparr>)"
    using m smv by (simp add: ms1 lookup_def)
  have nth1: "machineStore h1 ! m = sm\<lparr>clean := True\<rparr>"
    using sm1 by (simp add: lookup_def split: if_splits)
  have sg: "sameGraph ?l ?l1"
    by (simp add: sameGraph_def log_def h1' setClean_def map_update_same)
  from StateMachine_accept_quiet[OF sg acc] obtain c' where
    acc1: "StateMachine_accept n ?l1 m = Some (h1\<lparr>console := c'\<rparr>)"
    by (auto simp: log_def)
  have "setClean (h1\<lparr>console := c'\<rparr>) m True = h1\<lparr>console := c'\<rparr>"
    using cl by (simp add: setClean_def clean_update_id)
  with sm1 acc1 have second: "StateMachine_initialise n run h1 m None a' = Some (h1\<lparr>console := c'\<rparr>)"
    by simp
  have third: "StateMachine_initialise n run h1 m (Some i) True =
           (case lookup (instanceStore h1) i of
              None \<Rightarrow> None
            | Some di \<Rightarrow> invoke run (onInitialise (machineStore h1 ! m)) Undefined i False
                           (log h1 (''initialise '' @ di_name di)))"
    unfolding nth1 by (rule initialise_instance_clean[OF sm1]) simp
  from first cl second third show ?thesis by simp
qed

theorem compile_idempotent_witness:
  "StateMachine_initialise 4 (\<lambda>f msg i d h. Some h) exampleHeap 0 None True = Some compiledHeap \<and>
   clean (machineStore exampleHeap ! 0) = False \<and>
   clean (machineStore compiledHeap ! 0) = True \<and>
   StateMachine_initialise 4 (\<lambda>f msg i d h. Some h) compiledHeap 0 None True =
     Some (compiledHeap\<lparr>console := console compiledHeap @
        [''initialise m'', ''visiting m.default.a.default.c'',
         ''visiting m.default.a.default'',
         ''visiting External(m.default.a -> m.default.b)'', ''visiting m.default.a'',
         ''visiting External(m.default.i -> m.default.a)'', ''visiting m.default.i'',
         ''visiting m.default.b'', ''visiting m.default'', ''visiting m'']\<rparr>) \<and>
   StateMachine_initialise 4 (\<lambda>f msg i d h. Some h) compiledHeap 0 (Some 0) True =
     Some (log compiledHeap ''initialise x'')"
proof -
  let ?run = "\<lambda>(f::fref) (msg::message) (i::iref) (d::bool) (h::heap). Some h"
  have i: "StateMachine_initialise 4 ?run exampleHeap 0 None True = Some compiledHeap"
    by (rule initialise_exampleHeap)
  from compile_idempotent[OF i, of True 0] obtain h2 where
    h2: "StateMachine_initialise 4 ?run compiledHeap 0 None True = Some h2"
      "h2 = compiledHeap\<lparr>console := console h2\<rparr>"
    and inst: "StateMachine_initialise 4 ?run compiledHeap 0 (Some 0) True =
           (case lookup (instanceStore compiledHeap) 0 of
              None \<Rightarrow> None
            | Some di \<Rightarrow> invoke ?run (onInitialise (machineStore compiledHeap ! 0)) Undefined 0 False
                           (log compiledHeap (''initialise '' @ di_name di)))"
    by blast
  have "StateMachine_initialise 4 ?run compiledHeap 0 None True =
     Some (compiledHeap\<lparr>console := console compiledHeap @
        [''initialise m'', ''visiting m.default.a.default.c'',
         ''visiting m.default.a.default'',
         ''visiting External(m.default.a -> m.default.b)'', ''visiting m.default.a'',
         ''visiting External(m.default.i -> m.default.a)'', ''visiting m.default.i'',
         ''visiting m.default.b'', ''visiting m.default'', ''visiting m'']\<rparr>)"
    by (simp add: compiledHeap_def exampleHeap_def StateMachine_accept_def lookup_def log_def
      visitElement_def visitVertex_def visitTransition_def Transition_toString_def toString_def
      kindName_def setClean_def numeral_eq_Suc)
  moreover from inst have "StateMachine_initialise 4 ?run compiledHeap 0 (Some 0) True =
     Some (log compiledHeap ''initialise x'')"
    by (simp add: compiledHeap_def exampleHeap_def lookup_def invoke_def)
  moreover have "clean (machineStore exampleHeap ! 0) = False" by (simp add: exampleHeap_def)
  ultimately show ?thesis using i compiled_facts(4) by simp
qed

end
